theory Spec2Isabelle
  imports Main
begin

section \<open>env-sync: copying CI/CD variables between two GitLab projects\<close>

text \<open>
  The program is one Go file, \<^verbatim>\<open>main.go\<close>: a client with the two operations
  \<^verbatim>\<open>GetVariables\<close> and \<^verbatim>\<open>CreateVariable\<close>, the helper \<^verbatim>\<open>writeDryRunOutput\<close> and
  \<^verbatim>\<open>main\<close>. A Go \<^verbatim>\<open>string\<close> is a sequence of bytes, and so is a HOL \<open>string\<close>
  (a list of 8-bit characters). An \<^verbatim>\<open>error\<close> is modelled by the text its
  \<^verbatim>\<open>Error()\<close> method returns, which is all the program ever reads of it
  (through \<^verbatim>\<open>%v\<close>).
\<close>

type_synonym error = string

subsection \<open>Bytes and digits\<close>

definition byte :: "char \<Rightarrow> nat" where
  "byte c = of_char c"

text \<open>\<open>between lo hi c\<close> is Go's \<^verbatim>\<open>lo <= c && c <= hi\<close> on bytes.\<close>

definition between :: "char \<Rightarrow> char \<Rightarrow> char \<Rightarrow> bool" where
  "between lo hi c = (byte lo \<le> byte c \<and> byte c \<le> byte hi)"

definition isalnum :: "char \<Rightarrow> bool" where
  "isalnum c =
     (between CHR ''a'' CHR ''z'' c \<or> between CHR ''A'' CHR ''Z'' c \<or>
      between CHR ''0'' CHR ''9'' c)"

text \<open>\<^verbatim>\<open>strconv\<close>'s decimal rendering, which \<^verbatim>\<open>%d\<close> uses.\<close>

definition decimal_digit :: "nat \<Rightarrow> char" where
  "decimal_digit n = ''0123456789'' ! n"

fun nat_digits :: "nat \<Rightarrow> string" where
  "nat_digits n =
     (if n < 10 then [decimal_digit n]
      else nat_digits (n div 10) @ [decimal_digit (n mod 10)])"

declare nat_digits.simps [simp del]

definition Itoa :: "int \<Rightarrow> string" where
  "Itoa i = (if i < 0 then CHR ''-'' # nat_digits (nat (- i)) else nat_digits (nat i))"

subsection \<open>\<^verbatim>\<open>net/url\<close>: escaping one path segment\<close>

text \<open>
  Modelled from the spec: \<^verbatim>\<open>url.PathEscape\<close> and its inverse \<^verbatim>\<open>url.PathUnescape\<close>
  belong to Go's standard library \<^verbatim>\<open>net/url\<close>; the repository only calls the
  first. The spec asks for percent-encoding of a URL path segment; the definitions
  follow the library's routine \<^verbatim>\<open>escape\<close>/\<^verbatim>\<open>unescape\<close> in the mode
  \<^verbatim>\<open>encodePathSegment\<close>: letters, digits and \<^verbatim>\<open>- _ . ~\<close> stay, of the reserved
  characters \<^verbatim>\<open>$ & + : = @\<close> stay and \<^verbatim>\<open>/ ; , ?\<close> are escaped, and every other
  byte is escaped, as \<^verbatim>\<open>%XX\<close> with upper-case hexadecimal digits.
\<close>

definition shouldEscape :: "char \<Rightarrow> bool" where
  "shouldEscape c =
     (if isalnum c then False
      else if c \<in> set ''-_.~'' then False
      else if c \<in> set ''$&+,/:;=?@'' then c \<in> set ''/;,?''
      else True)"

definition upperhex :: "nat \<Rightarrow> char" where
  "upperhex n = ''0123456789ABCDEF'' ! n"

definition ishex :: "char \<Rightarrow> bool" where
  "ishex c =
     (between CHR ''0'' CHR ''9'' c \<or> between CHR ''a'' CHR ''f'' c \<or>
      between CHR ''A'' CHR ''F'' c)"

definition unhex :: "char \<Rightarrow> nat" where
  "unhex c =
     (if between CHR ''0'' CHR ''9'' c then byte c - byte CHR ''0''
      else if between CHR ''a'' CHR ''f'' c then byte c - byte CHR ''a'' + 10
      else if between CHR ''A'' CHR ''F'' c then byte c - byte CHR ''A'' + 10
      else 0)"

fun PathEscape :: "string \<Rightarrow> string" where
  "PathEscape [] = []"
| "PathEscape (c # s) =
     (if shouldEscape c
      then CHR ''%'' # upperhex (byte c div 16) # upperhex (byte c mod 16) # PathEscape s
      else c # PathEscape s)"

text \<open>
  \<^verbatim>\<open>PathUnescape\<close> fails (\<open>None\<close>, the library's \<^verbatim>\<open>EscapeError\<close>) when a
  \<^verbatim>\<open>%\<close> is not followed by two hexadecimal digits.
\<close>

fun PathUnescape :: "string \<Rightarrow> string option" where
  "PathUnescape [] = Some []"
| "PathUnescape (c # s) =
     (if c = CHR ''%'' then
        (case s of
           h1 # h2 # rest \<Rightarrow>
             if ishex h1 \<and> ishex h2
             then map_option ((#) (char_of (unhex h1 * 16 + unhex h2))) (PathUnescape rest)
             else None
         | _ \<Rightarrow> None)
      else map_option ((#) c) (PathUnescape s))"

subsection \<open>\<^verbatim>\<open>unicode/utf8\<close>: reading one rune\<close>

text \<open>
  Go's \<^verbatim>\<open>utf8.DecodeRuneInString\<close>, which \<^verbatim>\<open>json.Marshal\<close> calls on every byte
  from \<^verbatim>\<open>0x80\<close> on. It returns the rune and the number of bytes read; a byte
  sequence that is not well-formed UTF-8 (a stray continuation byte, a truncated or
  overlong sequence, a surrogate, a value above \<^verbatim>\<open>U+10FFFF\<close>) gives
  \<^verbatim>\<open>(RuneError, 1)\<close>. The library's table \<^verbatim>\<open>first\<close> and its \<^verbatim>\<open>acceptRanges\<close>
  are written out as comparisons; masks and shifts are written as \<open>mod\<close> and
  multiplication on the byte values.
\<close>

definition RuneError :: nat where
  "RuneError = 0xFFFD"

definition DecodeRuneInString :: "string \<Rightarrow> nat \<times> nat" where
  "DecodeRuneInString s =
     (if length s < 1 then (RuneError, 0)
      else
        let s0 = byte (s ! 0) in
        if s0 < 0x80 then (s0, 1)
        else if s0 < 0xC2 \<or> 0xF4 < s0 then (RuneError, 1)
        else
          let sz = (if s0 < 0xE0 then 2 else if s0 < 0xF0 then 3 else (4::nat));
              lo = (if s0 = 0xE0 then 0xA0 else if s0 = 0xF0 then 0x90 else 0x80);
              hi = (if s0 = 0xED then 0x9F else if s0 = 0xF4 then 0x8F else 0xBF)
          in
          if length s < sz then (RuneError, 1)
          else
            let s1 = byte (s ! 1) in
            if s1 < lo \<or> hi < s1 then (RuneError, 1)
            else if sz \<le> 2 then (s0 mod 32 * 64 + s1 mod 64, 2)
            else
              let s2 = byte (s ! 2) in
              if s2 < 0x80 \<or> 0xBF < s2 then (RuneError, 1)
              else if sz \<le> 3 then (s0 mod 16 * 4096 + s1 mod 64 * 64 + s2 mod 64, 3)
              else
                let s3 = byte (s ! 3) in
                if s3 < 0x80 \<or> 0xBF < s3 then (RuneError, 1)
                else (s0 mod 8 * 262144 + s1 mod 64 * 4096 + s2 mod 64 * 64 + s3 mod 64, 4))"

subsection \<open>The variable record and its JSON encoding\<close>

text \<open>The struct \<^verbatim>\<open>EnvVar\<close>, with the field order of the source.\<close>

record EnvVar =
  VariableType :: string
  Key :: string
  Value :: string
  Protected :: bool
  Masked :: bool
  EnvironmentScope :: string

text \<open>
  Modelled from the spec: \<^verbatim>\<open>json.Marshal\<close> belongs to Go's standard library
  \<^verbatim>\<open>encoding/json\<close>. For a struct of strings and booleans it never fails; it writes
  the fields in declaration order under the names of their \<^verbatim>\<open>json\<close> tags. A string
  is written by the library's \<^verbatim>\<open>appendString\<close> with HTML escaping on (the default
  of \<^verbatim>\<open>Marshal\<close>), as of Go 1.22: printable ASCII but \<^verbatim>\<open>" \ < > &\<close> is copied,
  the other ASCII bytes are escaped, a byte that does not start a well-formed UTF-8
  sequence becomes the six characters \<^verbatim>\<open>\ufffd\<close>, \<^verbatim>\<open>U+2028\<close> and \<^verbatim>\<open>U+2029\<close> are
  escaped, and every other well-formed sequence is copied.
\<close>

definition lowerhex :: "nat \<Rightarrow> char" where
  "lowerhex n = ''0123456789abcdef'' ! n"

definition htmlSafe :: "char \<Rightarrow> bool" where
  \<open>htmlSafe b = (0x20 \<le> byte b \<and> byte b < 0x80 \<and> b \<notin> set ''"&<>'' \<and> b \<noteq> CHR 0x5C)\<close>

definition escape_ascii :: "char \<Rightarrow> string" where
  \<open>escape_ascii b =
     (if b = CHR 0x5C \<or> b = CHR ''"'' then [CHR 0x5C, b]
      else if b = CHR 0x08 then [CHR 0x5C, CHR ''b'']
      else if b = CHR 0x0C then [CHR 0x5C, CHR ''f'']
      else if b = CHR 0x0A then [CHR 0x5C, CHR ''n'']
      else if b = CHR 0x0D then [CHR 0x5C, CHR ''r'']
      else if b = CHR 0x09 then [CHR 0x5C, CHR ''t'']
      else [CHR 0x5C, CHR ''u'', CHR ''0'', CHR ''0'',
            lowerhex (byte b div 16), lowerhex (byte b mod 16)])\<close>

lemma DecodeRuneInString_size: "0 < snd (DecodeRuneInString (b # s))"
  by (simp add: DecodeRuneInString_def Let_def)

lemma DecodeRuneInString_progress: "(c, n) = DecodeRuneInString (b # s) \<Longrightarrow> 0 < n"
  using DecodeRuneInString_size [of b s] by (metis snd_conv)

function string_body :: "string \<Rightarrow> string" where
  "string_body [] = []"
| "string_body (b # s) =
     (if byte b < 0x80 then
        (if htmlSafe b then [b] else escape_ascii b) @ string_body s
      else
        (case DecodeRuneInString (b # s) of
           (c, n) \<Rightarrow>
             if c = RuneError \<and> n = 1 then
               [CHR 0x5C, CHR ''u'', CHR ''f'', CHR ''f'', CHR ''f'', CHR ''d''] @ string_body s
             else if c = 0x2028 \<or> c = 0x2029 then
               [CHR 0x5C, CHR ''u'', CHR ''2'', CHR ''0'', CHR ''2'', lowerhex (c mod 16)]
                 @ string_body (drop n (b # s))
             else take n (b # s) @ string_body (drop n (b # s))))"
  by pat_completeness auto
termination
  by (relation "measure length") (auto dest: DecodeRuneInString_progress)

definition appendString :: "string \<Rightarrow> string" where
  \<open>appendString src = CHR ''"'' # string_body src @ ''"''\<close>

definition appendBool :: "bool \<Rightarrow> string" where
  "appendBool b = (if b then ''true'' else ''false'')"

definition EnvVar_json :: "EnvVar \<Rightarrow> string" where
  \<open>EnvVar_json v =
     ''{"variable_type":'' @ appendString (VariableType v) @
     '',"key":'' @ appendString (Key v) @
     '',"value":'' @ appendString (Value v) @
     '',"protected":'' @ appendBool (Protected v) @
     '',"masked":'' @ appendBool (Masked v) @
     '',"environment_scope":'' @ appendString (EnvironmentScope v) @ ''}''\<close>

text \<open>\<^verbatim>\<open>json.Marshal(variable)\<close>: the bytes, and never an error for this struct.\<close>

definition json_Marshal :: "EnvVar \<Rightarrow> error + string" where
  "json_Marshal v = Inr (EnvVar_json v)"

subsection \<open>The world outside the program\<close>

text \<open>
  A Go slice is \<open>None\<close> when it is \<^verbatim>\<open>nil\<close> and \<open>Some xs\<close> otherwise; \<^verbatim>\<open>len\<close> and
  \<^verbatim>\<open>range\<close> treat a \<^verbatim>\<open>nil\<close> slice as empty.
\<close>

type_synonym 'a slice = "'a list option"

definition elems :: "'a slice \<Rightarrow> 'a list" where
  "elems xs = (case xs of None \<Rightarrow> [] | Some ys \<Rightarrow> ys)"

definition len :: "'a slice \<Rightarrow> int" where
  "len xs = int (length (elems xs))"

text \<open>
  The request that \<^verbatim>\<open>makeRequest\<close> builds, and what \<^verbatim>\<open>httpClient.Do\<close> gives back:
  an error (no connection, the ten-second timeout, ...) or a response, of which the
  program reads the status code and the body. A body is the bytes the reader delivers
  and, when reading stops on an error instead of the end of the stream, that error.
\<close>

record Request =
  Method :: string
  URL :: string
  Header :: "(string \<times> string) list"
  ReqBody :: "string option"

datatype Body = Body string "error option"

datatype DoResult = DoError error | Response int Body

text \<open>\<^verbatim>\<open>bodyBytes, _ := io.ReadAll(resp.Body)\<close>: the bytes read, the error dropped.\<close>

fun ReadAll_bytes :: "Body \<Rightarrow> string" where
  "ReadAll_bytes (Body bytes err) = bytes"

text \<open>The anonymous struct that \<^verbatim>\<open>writeDryRunOutput\<close> serialises.\<close>

record DryRunOutput =
  Timestamp :: string
  SourceProject :: string
  TargetProject :: string
  Variables :: "EnvVar slice"

text \<open>
  What a run does to the world, in order. \<open>CreateVariableCall\<close> is bookkeeping and no
  output of the program: it records one invocation of \<^verbatim>\<open>CreateVariable\<close>, with its
  three arguments and the error it returned (\<open>None\<close> for \<^verbatim>\<open>nil\<close>), so that claims
  about calls can be stated on the trace.
\<close>

datatype effect =
    HttpDo Request
  | WriteFile string string nat
  | LogPrint string
  | Println string
  | FlagUsage
  | CreateVariableCall string EnvVar bool "error option"

text \<open>
  The environment of a run: the answers of the network, the file system and the clock,
  each of which may depend on everything that happened before (the trace so far), and
  three library routines whose results the program only passes on:
  \<^verbatim>\<open>http.NewRequest\<close> (it fails when the method or the URL is malformed),
  \<^verbatim>\<open>json.NewDecoder(body).Decode(&variables)\<close> (the state of \<^verbatim>\<open>variables\<close> after the
  call, and the error) and \<^verbatim>\<open>json.MarshalIndent(output, prefix, indent)\<close>.
\<close>

record env =
  http_NewRequest :: "string \<Rightarrow> string \<Rightarrow> error option"
  http_Do :: "effect list \<Rightarrow> Request \<Rightarrow> DoResult"
  json_Decode :: "Body \<Rightarrow> EnvVar slice \<times> error option"
  json_MarshalIndent :: "DryRunOutput \<Rightarrow> string \<Rightarrow> string \<Rightarrow> error + string"
  os_WriteFile :: "effect list \<Rightarrow> string \<Rightarrow> string \<Rightarrow> nat \<Rightarrow> error option"
  time_Now_RFC3339 :: "effect list \<Rightarrow> string"

subsection \<open>The client\<close>

record GitLabClient =
  baseURL :: string
  token :: string
  httpClient_Timeout :: nat

definition NewGitLabClient :: "string \<Rightarrow> string \<Rightarrow> GitLabClient" where
  "NewGitLabClient b t = \<lparr>baseURL = b, token = t, httpClient_Timeout = 10\<rparr>"

definition makeRequest ::
  "env \<Rightarrow> GitLabClient \<Rightarrow> string \<Rightarrow> string \<Rightarrow> string option \<Rightarrow> error + Request" where
  "makeRequest e c method path body =
     (let url = baseURL c @ ''/api/v4/'' @ path in
      case http_NewRequest e method url of
        Some err \<Rightarrow> Inl err
      | None \<Rightarrow>
          Inr \<lparr>Method = method, URL = url,
               Header = [(''PRIVATE-TOKEN'', token c), (''Content-Type'', ''application/json'')],
               ReqBody = body\<rparr>)"

text \<open>
  \<^verbatim>\<open>GetVariables\<close> returns the pair \<^verbatim>\<open>([]EnvVar, error)\<close> of the source, and the trace
  extended by what it did.
\<close>

definition GetVariables ::
  "env \<Rightarrow> GitLabClient \<Rightarrow> string \<Rightarrow> effect list \<Rightarrow> (EnvVar slice \<times> error option) \<times> effect list"
  where
  "GetVariables e c projectPath t =
     (let encodedPath = PathEscape projectPath;
          path = ''projects/'' @ encodedPath @ ''/variables''
      in
      case makeRequest e c ''GET'' path None of
        Inl err \<Rightarrow> ((None, Some err), t)
      | Inr req \<Rightarrow>
          (case http_Do e t req of
             DoError err \<Rightarrow> ((None, Some err), t @ [HttpDo req])
           | Response StatusCode body \<Rightarrow>
               if StatusCode = 404 then
                 ((None, Some (''project not found: '' @ projectPath)), t @ [HttpDo req])
               else if StatusCode \<noteq> 200 then
                 ((None, Some (''failed to get variables: status code '' @ Itoa StatusCode @
                          '', response: '' @ ReadAll_bytes body)),
                  t @ [HttpDo req])
               else
                 (case json_Decode e body of
                    (variables, Some err) \<Rightarrow> ((None, Some err), t @ [HttpDo req])
                  | (variables, None) \<Rightarrow> ((variables, None), t @ [HttpDo req]))))"

definition CreateVariable_body ::
  "env \<Rightarrow> GitLabClient \<Rightarrow> string \<Rightarrow> EnvVar \<Rightarrow> bool \<Rightarrow> effect list \<Rightarrow> error option \<times> effect list"
  where
  "CreateVariable_body e c projectPath variable dryRun t =
     (if dryRun then (None, t)
      else
        let encodedPath = PathEscape projectPath in
        case json_Marshal variable of
          Inl err \<Rightarrow> (Some err, t)
        | Inr data \<Rightarrow>
            (case makeRequest e c ''POST'' (''projects/'' @ encodedPath @ ''/variables'') (Some data) of
               Inl err \<Rightarrow> (Some err, t)
             | Inr req \<Rightarrow>
                 (case http_Do e t req of
                    DoError err \<Rightarrow> (Some err, t @ [HttpDo req])
                  | Response StatusCode body \<Rightarrow>
                      if StatusCode \<noteq> 201 then
                        (Some (''failed to create variable '' @ Key variable @
                               '': status code '' @ Itoa StatusCode @
                               '', response: '' @ ReadAll_bytes body),
                         t @ [HttpDo req])
                      else (None, t @ [HttpDo req]))))"

text \<open>\<^verbatim>\<open>CreateVariable\<close> is its body, with the invocation recorded when it returns.\<close>

definition CreateVariable ::
  "env \<Rightarrow> GitLabClient \<Rightarrow> string \<Rightarrow> EnvVar \<Rightarrow> bool \<Rightarrow> effect list \<Rightarrow> error option \<times> effect list"
  where
  "CreateVariable e c projectPath variable dryRun t =
     (case CreateVariable_body e c projectPath variable dryRun t of
        (err, t') \<Rightarrow> (err, t' @ [CreateVariableCall projectPath variable dryRun err]))"

text \<open>The file mode \<^verbatim>\<open>0644\<close> (octal).\<close>

definition mode_0644 :: nat where
  "mode_0644 = 6 * 64 + 4 * 8 + 4"

definition writeDryRunOutput ::
  "env \<Rightarrow> string \<Rightarrow> string \<Rightarrow> string \<Rightarrow> EnvVar slice \<Rightarrow> effect list \<Rightarrow> error option \<times> effect list"
  where
  "writeDryRunOutput e filename sourceProject targetProject variables t =
     (let output = \<lparr>Timestamp = time_Now_RFC3339 e t, SourceProject = sourceProject,
                     TargetProject = targetProject, Variables = variables\<rparr>
      in
      case json_MarshalIndent e output [] ''  '' of
        Inl err \<Rightarrow> (Some err, t)
      | Inr data \<Rightarrow> (os_WriteFile e t filename data mode_0644, t @ [WriteFile filename data mode_0644]))"

subsection \<open>The driver\<close>

text \<open>
  The flags as \<^verbatim>\<open>flag.Parse\<close> leaves them. Parsing the command line itself is the
  library's and is not modelled: \<open>main\<close> starts where \<^verbatim>\<open>flag.Parse()\<close> has returned.
\<close>

record Flags =
  gitlabURL :: string
  tokenFlag :: string
  sourceProject :: string
  targetProject :: string
  dryRun :: bool
  outputFile :: string

text \<open>\<^verbatim>\<open>strings.TrimRight(s, cutset)\<close> for a cutset of ASCII characters.\<close>

definition TrimRight :: "string \<Rightarrow> string \<Rightarrow> string" where
  "TrimRight s cutset = rev (dropWhile (\<lambda>c. c \<in> set cutset) (rev s))"

text \<open>
  The loop of \<^verbatim>\<open>main\<close> over \<^verbatim>\<open>sourceVars\<close>, with the counter \<^verbatim>\<open>successCount\<close> and
  the trace.
\<close>

fun transfer_loop ::
  "env \<Rightarrow> GitLabClient \<Rightarrow> string \<Rightarrow> EnvVar list \<Rightarrow> int \<Rightarrow> effect list \<Rightarrow> int \<times> effect list"
  where
  "transfer_loop e client target [] successCount t = (successCount, t)"
| "transfer_loop e client target (v # vs) successCount t =
     (case CreateVariable e client target v False
             (t @ [LogPrint (''Transferring variable: '' @ Key v)]) of
        (Some err, t') \<Rightarrow>
          transfer_loop e client target vs successCount
            (t' @ [LogPrint (''Error transferring variable '' @ Key v @ '': '' @ err)])
      | (None, t') \<Rightarrow> transfer_loop e client target vs (successCount + 1) t')"

definition usage_example :: "effect list" where
  "usage_example =
     [FlagUsage,
      Println (CHR 0x0A # ''Example usage:''),
      Println (''  ./gitlab-env-sync '' @ [CHR 0x5C]),
      Println (''    --gitlab-url https://gitlab.com '' @ [CHR 0x5C]),
      Println (''    --token your-token '' @ [CHR 0x5C]),
      Println (''    --source group/project-a '' @ [CHR 0x5C]),
      Println ''    --target group/project-b'']"

text \<open>
  \<open>main\<close> returns the exit status of the process and the trace of the run.
  \<^verbatim>\<open>os.Exit(1)\<close> and \<^verbatim>\<open>log.Fatalf\<close> (which prints and then calls \<^verbatim>\<open>os.Exit(1)\<close>)
  end it with status 1, returning from \<^verbatim>\<open>main\<close> with status 0.
\<close>

definition main :: "env \<Rightarrow> Flags \<Rightarrow> int \<times> effect list" where
  "main e f =
     (if gitlabURL f = [] \<or> tokenFlag f = [] \<or> sourceProject f = [] \<or> targetProject f = []
      then (1, usage_example)
      else
        let url = TrimRight (gitlabURL f) ''/'';
            client = NewGitLabClient url (tokenFlag f);
            t0 = [LogPrint (''Fetching variables from source project: '' @ sourceProject f)]
        in
        case GetVariables e client (sourceProject f) t0 of
          ((sourceVars, Some err), t1) \<Rightarrow>
            (1, t1 @ [LogPrint (''Error getting variables from source project: '' @ err)])
        | ((sourceVars, None), t1) \<Rightarrow>
            if dryRun f then
              (case writeDryRunOutput e (outputFile f) (sourceProject f) (targetProject f) sourceVars
                      (t1 @ [LogPrint (''Performing dry run, writing output to '' @ outputFile f)]) of
                 (Some err, t2) \<Rightarrow>
                   (1, t2 @ [LogPrint (''Error writing dry run output: '' @ err)])
               | (None, t2) \<Rightarrow>
                   (0, t2 @ [LogPrint (''Dry run completed. Found '' @ Itoa (len sourceVars) @
                                       '' variables to transfer'')]))
            else
              (case transfer_loop e client (targetProject f) (elems sourceVars) 0
                      (t1 @ [LogPrint (''Starting transfer of '' @ Itoa (len sourceVars) @
                                       '' variables from '' @ sourceProject f @ '' to '' @
                                       targetProject f)]) of
                 (successCount, t2) \<Rightarrow>
                   (0, t2 @ [LogPrint (''Transfer completed. Successfully transferred '' @
                                       Itoa successCount @ ''/'' @ Itoa (len sourceVars) @
                                       '' variables'')])))"

subsection \<open>Reading a trace\<close>

fun request_of :: "effect \<Rightarrow> Request list" where
  "request_of (HttpDo r) = [r]"
| "request_of _ = []"

fun file_of :: "effect \<Rightarrow> (string \<times> string \<times> nat) list" where
  "file_of (WriteFile name data perm) = [(name, data, perm)]"
| "file_of _ = []"

fun log_of :: "effect \<Rightarrow> string list" where
  "log_of (LogPrint msg) = [msg]"
| "log_of _ = []"

fun call_of :: "effect \<Rightarrow> (string \<times> EnvVar \<times> bool \<times> error option) list" where
  "call_of (CreateVariableCall p v d r) = [(p, v, d, r)]"
| "call_of _ = []"

text \<open>
  The requests sent, the files written, the lines logged and the invocations of
  \<^verbatim>\<open>CreateVariable\<close>, each in the order of the run.
\<close>

definition requests :: "effect list \<Rightarrow> Request list" where
  "requests t = concat (map request_of t)"

definition files :: "effect list \<Rightarrow> (string \<times> string \<times> nat) list" where
  "files t = concat (map file_of t)"

definition logs :: "effect list \<Rightarrow> string list" where
  "logs t = concat (map log_of t)"

definition calls :: "effect list \<Rightarrow> (string \<times> EnvVar \<times> bool \<times> error option) list" where
  "calls t = concat (map call_of t)"

text \<open>The requests other than the listing's \<^verbatim>\<open>GET\<close>: the ones that could change a project.\<close>

definition mutating_requests :: "effect list \<Rightarrow> Request list" where
  "mutating_requests t = filter (\<lambda>r. Method r \<noteq> ''GET'') (requests t)"

fun call_args :: "string \<times> EnvVar \<times> bool \<times> error option \<Rightarrow> string \<times> EnvVar \<times> bool" where
  "call_args (p, v, d, r) = (p, v, d)"

fun call_result :: "string \<times> EnvVar \<times> bool \<times> error option \<Rightarrow> error option" where
  "call_result (p, v, d, r) = r"

definition successes :: "effect list \<Rightarrow> int" where
  "successes t = int (length (filter (\<lambda>c. call_result c = None) (calls t)))"

definition failures :: "effect list \<Rightarrow> (string \<times> EnvVar \<times> bool \<times> error option) list" where
  "failures t = filter (\<lambda>c. call_result c \<noteq> None) (calls t)"

definition error_logs :: "effect list \<Rightarrow> string list" where
  "error_logs t = filter (\<lambda>l. take 28 l = ''Error transferring variable '') (logs t)"

subsection \<open>A run, named\<close>

definition required_flags_set :: "Flags \<Rightarrow> bool" where
  "required_flags_set f =
     (gitlabURL f \<noteq> [] \<and> tokenFlag f \<noteq> [] \<and> sourceProject f \<noteq> [] \<and> targetProject f \<noteq> [])"

definition client_of :: "Flags \<Rightarrow> GitLabClient" where
  "client_of f = NewGitLabClient (TrimRight (gitlabURL f) ''/'') (tokenFlag f)"

text \<open>The call \<^verbatim>\<open>client.GetVariables(*sourceProject)\<close> of \<open>main\<close>: what it returns.\<close>

definition listing :: "env \<Rightarrow> Flags \<Rightarrow> EnvVar slice \<times> error option" where
  "listing e f =
     fst (GetVariables e (client_of f) (sourceProject f)
            [LogPrint (''Fetching variables from source project: '' @ sourceProject f)])"

text \<open>The request \<^verbatim>\<open>CreateVariable\<close> sends for one variable.\<close>

definition create_request :: "GitLabClient \<Rightarrow> string \<Rightarrow> EnvVar \<Rightarrow> Request" where
  "create_request c projectPath v =
     \<lparr>Method = ''POST'',
      URL = baseURL c @ ''/api/v4/projects/'' @ PathEscape projectPath @ ''/variables'',
      Header = [(''PRIVATE-TOKEN'', token c), (''Content-Type'', ''application/json'')],
      ReqBody = Some (EnvVar_json v)\<rparr>"

definition can_build :: "env \<Rightarrow> GitLabClient \<Rightarrow> string \<Rightarrow> string \<Rightarrow> bool" where
  "can_build e c method projectPath =
     (http_NewRequest e method
        (baseURL c @ ''/api/v4/projects/'' @ PathEscape projectPath @ ''/variables'') = None)"

text \<open>The request \<^verbatim>\<open>GetVariables\<close> sends.\<close>

definition list_request :: "GitLabClient \<Rightarrow> string \<Rightarrow> Request" where
  "list_request c projectPath =
     \<lparr>Method = ''GET'',
      URL = baseURL c @ ''/api/v4/projects/'' @ PathEscape projectPath @ ''/variables'',
      Header = [(''PRIVATE-TOKEN'', token c), (''Content-Type'', ''application/json'')],
      ReqBody = None\<rparr>"

text \<open>The trace of \<open>main\<close> when \<^verbatim>\<open>GetVariables\<close> has returned.\<close>

definition fetched :: "env \<Rightarrow> Flags \<Rightarrow> effect list" where
  "fetched e f =
     snd (GetVariables e (client_of f) (sourceProject f)
            [LogPrint (''Fetching variables from source project: '' @ sourceProject f)])"

text \<open>What one round of the loop logs, given what \<^verbatim>\<open>CreateVariable\<close> returned.\<close>

fun loop_logs :: "EnvVar \<Rightarrow> error option \<Rightarrow> string list" where
  "loop_logs v None = [''Transferring variable: '' @ Key v]"
| "loop_logs v (Some err) =
     [''Transferring variable: '' @ Key v, ''Error transferring variable '' @ Key v @ '': '' @ err]"

text \<open>The line the loop logs for an invocation that returned an error.\<close>

fun failure_log :: "string \<times> EnvVar \<times> bool \<times> error option \<Rightarrow> string" where
  "failure_log (p, v, d, r) =
     ''Error transferring variable '' @ Key v @ '': '' @ (case r of None \<Rightarrow> [] | Some err \<Rightarrow> err)"

subsection \<open>Sample runs\<close>

text \<open>
  A server that lists two variables, refuses the first creation and accepts the others;
  and one that does not know the source project.
\<close>

definition demo_var :: "string \<Rightarrow> EnvVar" where
  "demo_var k = \<lparr>VariableType = ''env_var'', Key = k, Value = ''1'', Protected = False,
                 Masked = True, EnvironmentScope = ''*''\<rparr>"

definition demo_env :: env where
  "demo_env =
     \<lparr>http_NewRequest = (\<lambda>method url. None),
      http_Do = (\<lambda>t r.
        if Method r = ''GET'' then Response 200 (Body ''[two variables]'' None)
        else if length (requests t) = 1 then Response 400 (Body ''taken'' None)
        else Response 201 (Body [] None)),
      json_Decode = (\<lambda>b. (Some [demo_var ''A'', demo_var ''B''], None)),
      json_MarshalIndent = (\<lambda>out prefix indent. Inr ''{report}''),
      os_WriteFile = (\<lambda>t name data perm. None),
      time_Now_RFC3339 = (\<lambda>t. ''2024-05-01T12:00:00Z'')\<rparr>"

definition demo_env_404 :: env where
  "demo_env_404 = demo_env\<lparr>http_Do := (\<lambda>t r. Response 404 (Body ''{}'' None))\<rparr>"

definition demo_flags :: "bool \<Rightarrow> Flags" where
  "demo_flags d =
     \<lparr>gitlabURL = ''https://gitlab.com/'', tokenFlag = ''secret'', sourceProject = ''g/a'',
      targetProject = ''g/b'', dryRun = d, outputFile = ''env-sync-dry-run.json''\<rparr>"

definition demo_env_answering :: "DoResult \<Rightarrow> env" where
  "demo_env_answering x = demo_env\<lparr>http_Do := (\<lambda>t r. x)\<rparr>"

definition demo_env_undecodable :: env where
  "demo_env_undecodable =
     demo_env\<lparr>json_Decode := (\<lambda>b. (Some [demo_var ''A''], Some ''unexpected EOF''))\<rparr>"

definition demo_client :: GitLabClient where
  "demo_client = NewGitLabClient ''https://gitlab.com'' ''secret''"

subsection \<open>Reading a URL path\<close>

text \<open>\<^verbatim>\<open>strings.Split(path, "/")\<close>: the segments of a path.\<close>

fun split_slash :: "string \<Rightarrow> string list" where
  "split_slash [] = [[]]"
| "split_slash (c # s) =
     (if c = CHR ''/'' then [] # split_slash s
      else (case split_slash s of [] \<Rightarrow> [[c]] | x # xs \<Rightarrow> (c # x) # xs))"

text \<open>The requests that the trace \<open>t'\<close> holds beyond those of its beginning \<open>t\<close>.\<close>

definition issued :: "effect list \<Rightarrow> effect list \<Rightarrow> Request list" where
  "issued t t' = drop (length (requests t)) (requests t')"

subsection \<open>\<^verbatim>\<open>encoding/json\<close>: decoding one record\<close>

text \<open>
  Modelled from the spec: \<^verbatim>\<open>json.Unmarshal\<close> belongs to Go's standard library
  \<^verbatim>\<open>encoding/json\<close> and is not part of the repository, which decodes only through
  the library. The spec speaks of decoding "structured data matching the expected
  shape"; the definitions follow the library (as of Go 1.22) for a target of type
  \<^verbatim>\<open>EnvVar\<close>: the input is checked to be one JSON value, the members of an object are
  stored in order into the field whose \<^verbatim>\<open>json\<close> name matches the key (exactly, or
  else ignoring case), unknown keys are skipped, \<^verbatim>\<open>null\<close> leaves a field as it is, and
  a value of the wrong kind leaves the field and is reported as a type error once all
  members are stored.

  \<^verbatim>\<open>utf8.EncodeRune\<close>: the UTF-8 bytes of a rune; a surrogate or a value beyond
  \<^verbatim>\<open>U+10FFFF\<close> is written as \<^verbatim>\<open>U+FFFD\<close>.
\<close>

definition EncodeRune :: "nat \<Rightarrow> string" where
  "EncodeRune r =
     (if r \<le> 0x7F then [char_of r]
      else if r \<le> 0x7FF then [char_of (0xC0 + r div 64), char_of (0x80 + r mod 64)]
      else if 0x10FFFF < r \<or> (0xD800 \<le> r \<and> r \<le> 0xDFFF) then [CHR 0xEF, CHR 0xBF, CHR 0xBD]
      else if r \<le> 0xFFFF then
        [char_of (0xE0 + r div 4096), char_of (0x80 + r div 64 mod 64), char_of (0x80 + r mod 64)]
      else
        [char_of (0xF0 + r div 262144), char_of (0x80 + r div 4096 mod 64),
         char_of (0x80 + r div 64 mod 64), char_of (0x80 + r mod 64)])"

text \<open>\<^verbatim>\<open>getu4\<close> reads the escape \<^verbatim>\<open>\uXXXX\<close> at the start of a string (\<open>None\<close> for the library's \<^verbatim>\<open>-1\<close>).\<close>

definition getu4 :: "string \<Rightarrow> nat option" where
  "getu4 s =
     (case s of
        b0 # b1 # h1 # h2 # h3 # h4 # rest \<Rightarrow>
          if b0 = CHR 0x5C \<and> b1 = CHR ''u'' \<and> ishex h1 \<and> ishex h2 \<and> ishex h3 \<and> ishex h4
          then Some (((unhex h1 * 16 + unhex h2) * 16 + unhex h3) * 16 + unhex h4)
          else None
      | _ \<Rightarrow> None)"

text \<open>\<^verbatim>\<open>utf16.IsSurrogate\<close> and \<^verbatim>\<open>utf16.DecodeRune\<close>, whose second argument may be a failed \<^verbatim>\<open>getu4\<close>.\<close>

definition IsSurrogate :: "nat \<Rightarrow> bool" where
  "IsSurrogate r = (0xD800 \<le> r \<and> r < 0xE000)"

definition utf16_DecodeRune :: "nat \<Rightarrow> nat option \<Rightarrow> nat" where
  "utf16_DecodeRune r1 r2' =
     (case r2' of
        None \<Rightarrow> RuneError
      | Some r2 \<Rightarrow>
          if 0xD800 \<le> r1 \<and> r1 < 0xDC00 \<and> 0xDC00 \<le> r2 \<and> r2 < 0xE000
          then (r1 - 0xD800) * 1024 + (r2 - 0xDC00) + 0x10000
          else RuneError)"

text \<open>
  \<^verbatim>\<open>unquoteBytes\<close>, on the text between the quotes of a string literal: escapes are
  replaced, and the other bytes are read rune by rune and written back, so that a byte
  that is not well-formed UTF-8 becomes \<^verbatim>\<open>U+FFFD\<close>.
\<close>

function unquote :: "string \<Rightarrow> string option" where
  "unquote [] = Some []"
| "unquote (c # s) =
     (if c = CHR 0x5C then
        (case s of
           [] \<Rightarrow> None
         | e # s' \<Rightarrow>
             if e = CHR 0x22 \<or> e = CHR 0x5C \<or> e = CHR ''/'' \<or> e = CHR 0x27
               then map_option ((#) e) (unquote s')
             else if e = CHR ''b'' then map_option ((#) (CHR 0x08)) (unquote s')
             else if e = CHR ''f'' then map_option ((#) (CHR 0x0C)) (unquote s')
             else if e = CHR ''n'' then map_option ((#) (CHR 0x0A)) (unquote s')
             else if e = CHR ''r'' then map_option ((#) (CHR 0x0D)) (unquote s')
             else if e = CHR ''t'' then map_option ((#) (CHR 0x09)) (unquote s')
             else if e = CHR ''u'' then
               (case getu4 (c # s) of
                  None \<Rightarrow> None
                | Some rr \<Rightarrow>
                    if IsSurrogate rr then
                      (if utf16_DecodeRune rr (getu4 (drop 6 (c # s))) \<noteq> RuneError
                       then map_option ((@) (EncodeRune (utf16_DecodeRune rr (getu4 (drop 6 (c # s))))))
                              (unquote (drop 6 (drop 6 (c # s))))
                       else map_option ((@) (EncodeRune RuneError)) (unquote (drop 6 (c # s))))
                    else map_option ((@) (EncodeRune rr)) (unquote (drop 6 (c # s))))
             else None)
      else if c = CHR 0x22 \<or> byte c < 0x20 then None
      else if byte c < 0x80 then map_option ((#) c) (unquote s)
      else
        (case DecodeRuneInString (c # s) of
           (rr, n) \<Rightarrow> map_option ((@) (EncodeRune rr)) (unquote (drop n (c # s)))))"
  by pat_completeness auto

termination
  by (relation "measure length") (auto dest: DecodeRuneInString_progress)

text \<open>
  Reading a string rune by rune and writing each rune back: what the decoder does to the
  bytes of a string that has no escapes. \<^verbatim>\<open>utf8.ValidString\<close> says whether every rune
  read is well-formed.
\<close>

function coerce_utf8 :: "string \<Rightarrow> string" where
  "coerce_utf8 [] = []"
| "coerce_utf8 (b # s) =
     (case DecodeRuneInString (b # s) of (r, n) \<Rightarrow> EncodeRune r @ coerce_utf8 (drop n (b # s)))"
  by pat_completeness auto

termination
  by (relation "measure length") (auto dest: DecodeRuneInString_progress)

function ValidString :: "string \<Rightarrow> bool" where
  "ValidString [] = True"
| "ValidString (b # s) =
     (case DecodeRuneInString (b # s) of
        (r, n) \<Rightarrow> \<not> (r = RuneError \<and> n = 1) \<and> ValidString (drop n (b # s)))"
  by pat_completeness auto

termination
  by (relation "measure length") (auto dest: DecodeRuneInString_progress)

declare coerce_utf8.simps(2) [simp del] ValidString.simps(2) [simp del] unquote.simps(2) [simp del]
  string_body.simps(2) [simp del]

text \<open>
  The scanner, in two passes: the bytes are cut into tokens, and the tokens are checked
  against the grammar by a machine with a stack of the open arrays and objects, which
  builds the value. The library does both byte by byte; the language accepted is the same.
\<close>

datatype token =
  LBrace | RBrace | LBracket | RBracket | Colon | Comma
  | TString string | TNumber | TTrue | TFalse | TNull

definition isSpace :: "char \<Rightarrow> bool" where
  "isSpace c = (c = CHR '' '' \<or> c = CHR 0x09 \<or> c = CHR 0x0D \<or> c = CHR 0x0A)"

definition isDigit :: "char \<Rightarrow> bool" where
  "isDigit c = between CHR ''0'' CHR ''9'' c"

text \<open>
  Inside a string literal (the library's \<^verbatim>\<open>stateInString\<close>, \<^verbatim>\<open>stateInStringEsc\<close>,
  \<^verbatim>\<open>stateInStringEscU\<close> ...): the result is the text up to the closing quote and the
  input after it.
\<close>

datatype string_state = InString | InStringEsc | InStringEscU nat

fun scan_string_from :: "string_state \<Rightarrow> string \<Rightarrow> (string \<times> string) option" where
  "scan_string_from st [] = None"
| "scan_string_from InString (c # s) =
     (if c = CHR 0x22 then Some ([], s)
      else if c = CHR 0x5C then
        map_option (\<lambda>(lit, rest). (c # lit, rest)) (scan_string_from InStringEsc s)
      else if byte c < 0x20 then None
      else map_option (\<lambda>(lit, rest). (c # lit, rest)) (scan_string_from InString s))"
| "scan_string_from InStringEsc (c # s) =
     (if c \<in> set ''bfnrt/'' \<or> c = CHR 0x5C \<or> c = CHR 0x22 then
        map_option (\<lambda>(lit, rest). (c # lit, rest)) (scan_string_from InString s)
      else if c = CHR ''u'' then
        map_option (\<lambda>(lit, rest). (c # lit, rest)) (scan_string_from (InStringEscU 4) s)
      else None)"
| "scan_string_from (InStringEscU k) (c # s) =
     (if ishex c then
        map_option (\<lambda>(lit, rest). (c # lit, rest))
          (scan_string_from (if k \<le> 1 then InString else InStringEscU (k - 1)) s)
      else None)"

definition scan_string :: "string \<Rightarrow> (string \<times> string) option" where
  "scan_string s = scan_string_from InString s"

text \<open>
  A number after its optional sign: \<^verbatim>\<open>0\<close> or digits not starting with \<^verbatim>\<open>0\<close>, an
  optional fraction, an optional exponent. The result is the input after the number.
\<close>

definition scan_exponent :: "string \<Rightarrow> string option" where
  "scan_exponent s =
     (case s of
        [] \<Rightarrow> Some s
      | e # r \<Rightarrow>
          if e = CHR ''e'' \<or> e = CHR ''E'' then
            (let r1 = (case r of [] \<Rightarrow> r | c # r' \<Rightarrow> if c = CHR ''+'' \<or> c = CHR ''-'' then r' else r)
             in if takeWhile isDigit r1 = [] then None else Some (dropWhile isDigit r1))
          else Some s)"

definition scan_fraction :: "string \<Rightarrow> string option" where
  "scan_fraction s =
     (case s of
        [] \<Rightarrow> Some s
      | d # r \<Rightarrow>
          if d = CHR ''.'' then
            (if takeWhile isDigit r = [] then None else scan_exponent (dropWhile isDigit r))
          else scan_exponent s)"

definition scan_integer :: "string \<Rightarrow> string option" where
  "scan_integer s =
     (case s of
        [] \<Rightarrow> None
      | d # r \<Rightarrow>
          if d = CHR ''0'' then scan_fraction r
          else if isDigit d then scan_fraction (dropWhile isDigit r)
          else None)"

lemma scan_string_from_shorter:
  "scan_string_from st s = Some (lit, rest) \<Longrightarrow> length rest < length s"
proof (induction s arbitrary: st lit rest)
  case Nil
  then show ?case by simp
next
  case (Cons c s)
  show ?case
  proof (cases st)
    case InString
    with Cons show ?thesis by (fastforce split: if_splits)
  next
    case InStringEsc
    with Cons show ?thesis by (fastforce split: if_splits)
  next
    case (InStringEscU k)
    with Cons show ?thesis by (fastforce split: if_splits)
  qed
qed

lemma scan_exponent_shorter: "scan_exponent s = Some rest \<Longrightarrow> length rest \<le> length s"
proof (cases s)
  case Nil
  then show "scan_exponent s = Some rest \<Longrightarrow> length rest \<le> length s"
    by (simp add: scan_exponent_def)
next
  case (Cons e r)
  assume a: "scan_exponent s = Some rest"
  show "length rest \<le> length s"
  proof (cases "e = CHR ''e'' \<or> e = CHR ''E''")
    case False
    with a Cons show ?thesis by (auto simp: scan_exponent_def)
  next
    case True
    define r1 where "r1 = (case r of [] \<Rightarrow> r | c # r' \<Rightarrow> if c = CHR ''+'' \<or> c = CHR ''-'' then r' else r)"
    have l: "length r1 \<le> length r" by (auto simp: r1_def split: list.splits)
    from a Cons True have "rest = dropWhile isDigit r1"
      by (auto simp: scan_exponent_def Let_def r1_def split: if_splits)
    then have "length rest \<le> length r1" by (simp add: length_dropWhile_le)
    with l Cons show ?thesis by simp
  qed
qed

lemma scan_fraction_shorter: "scan_fraction s = Some rest \<Longrightarrow> length rest \<le> length s"
proof (cases s)
  case Nil
  then show "scan_fraction s = Some rest \<Longrightarrow> length rest \<le> length s"
    by (simp add: scan_fraction_def)
next
  case (Cons d r)
  assume a: "scan_fraction s = Some rest"
  show "length rest \<le> length s"
  proof (cases "d = CHR ''.''")
    case False
    with a Cons show ?thesis by (auto simp: scan_fraction_def dest: scan_exponent_shorter)
  next
    case True
    with a Cons have "scan_exponent (dropWhile isDigit r) = Some rest"
      by (auto simp: scan_fraction_def split: if_splits)
    from scan_exponent_shorter [OF this] have "length rest \<le> length r"
      using length_dropWhile_le [of isDigit r] by simp
    with Cons show ?thesis by simp
  qed
qed

lemma scan_integer_shorter: "scan_integer s = Some rest \<Longrightarrow> length rest < length s"
proof (cases s)
  case Nil
  then show "scan_integer s = Some rest \<Longrightarrow> length rest < length s"
    by (simp add: scan_integer_def)
next
  case (Cons d r)
  assume a: "scan_integer s = Some rest"
  show "length rest < length s"
  proof (cases "d = CHR ''0''")
    case True
    with a Cons have "scan_fraction r = Some rest" by (simp add: scan_integer_def)
    from scan_fraction_shorter [OF this] Cons show ?thesis by simp
  next
    case False
    with a Cons have "scan_fraction (dropWhile isDigit r) = Some rest"
      by (auto simp: scan_integer_def split: if_splits)
    from scan_fraction_shorter [OF this] have "length rest \<le> length r"
      using length_dropWhile_le [of isDigit r] by simp
    with Cons show ?thesis by simp
  qed
qed

function lex :: "string \<Rightarrow> token list option" where
  "lex [] = Some []"
| "lex (c # s) =
     (if isSpace c then lex s
      else if c = CHR ''{'' then map_option ((#) LBrace) (lex s)
      else if c = CHR ''}'' then map_option ((#) RBrace) (lex s)
      else if c = CHR ''['' then map_option ((#) LBracket) (lex s)
      else if c = CHR '']'' then map_option ((#) RBracket) (lex s)
      else if c = CHR '':'' then map_option ((#) Colon) (lex s)
      else if c = CHR '','' then map_option ((#) Comma) (lex s)
      else if c = CHR 0x22 then
        (case scan_string s of
           None \<Rightarrow> None
         | Some (lit, rest) \<Rightarrow> map_option ((#) (TString lit)) (lex rest))
      else if c = CHR ''-'' then
        (case scan_integer s of
           None \<Rightarrow> None
         | Some rest \<Rightarrow> map_option ((#) TNumber) (lex rest))
      else if isDigit c then
        (case scan_integer (c # s) of
           None \<Rightarrow> None
         | Some rest \<Rightarrow> map_option ((#) TNumber) (lex rest))
      else if c = CHR ''t'' then
        (if take 3 s = ''rue'' then map_option ((#) TTrue) (lex (drop 3 s)) else None)
      else if c = CHR ''f'' then
        (if take 4 s = ''alse'' then map_option ((#) TFalse) (lex (drop 4 s)) else None)
      else if c = CHR ''n'' then
        (if take 3 s = ''ull'' then map_option ((#) TNull) (lex (drop 3 s)) else None)
      else None)"
  by pat_completeness auto

termination
proof (relation "measure length")
  fix c :: char and s lit rest :: string and x
  assume "scan_string s = Some x" and "(lit, rest) = x"
  then show "(rest, c # s) \<in> measure length"
    using scan_string_from_shorter [of InString s lit rest] by (simp add: scan_string_def)
next
  fix c :: char and s rest :: string
  assume "scan_integer s = Some rest"
  then show "(rest, c # s) \<in> measure length"
    using scan_integer_shorter [of s rest] by simp
next
  fix c :: char and s rest :: string
  assume "scan_integer (c # s) = Some rest"
  then show "(rest, c # s) \<in> measure length"
    using scan_integer_shorter [of "c # s" rest] by simp
qed simp_all

declare lex.simps(2) [simp del]

text \<open>
  A JSON value; a string and a key are kept as written between the quotes, a number is
  kept as a mark only, since no field of \<^verbatim>\<open>EnvVar\<close> takes one.
\<close>

datatype json =
  JNull | JBool bool | JNumber | JString string | JArray "json list"
  | JObject "(string \<times> json) list"

datatype frame = ArrayFrame "json list" | ObjectFrame "(string \<times> json) list" "string option"

datatype phase =
  BeginValue | BeginValueOrEmpty | BeginStringOrEmpty | BeginString | AfterKey | EndValue
  | EndTop json

text \<open>The scanner refuses arrays and objects nested deeper than this.\<close>

definition maxNestingDepth :: nat where
  "maxNestingDepth = 10000"

fun push_value :: "json \<Rightarrow> frame list \<Rightarrow> phase \<times> frame list" where
  "push_value v [] = (EndTop v, [])"
| "push_value v (ArrayFrame es # st) = (EndValue, ArrayFrame (v # es) # st)"
| "push_value v (ObjectFrame ms None # st) = (EndValue, ObjectFrame ms None # st)"
| "push_value v (ObjectFrame ms (Some k) # st) = (EndValue, ObjectFrame ((k, v) # ms) None # st)"

fun close_frame :: "frame list \<Rightarrow> (phase \<times> frame list) option" where
  "close_frame [] = None"
| "close_frame (ArrayFrame es # st) = Some (push_value (JArray (rev es)) st)"
| "close_frame (ObjectFrame ms k # st) = Some (push_value (JObject (rev ms)) st)"

fun begin_value :: "token \<Rightarrow> frame list \<Rightarrow> (phase \<times> frame list) option" where
  "begin_value LBrace st =
     (if length st < maxNestingDepth then Some (BeginStringOrEmpty, ObjectFrame [] None # st)
      else None)"
| "begin_value LBracket st =
     (if length st < maxNestingDepth then Some (BeginValueOrEmpty, ArrayFrame [] # st)
      else None)"
| "begin_value (TString s) st = Some (push_value (JString s) st)"
| "begin_value TNumber st = Some (push_value JNumber st)"
| "begin_value TTrue st = Some (push_value (JBool True) st)"
| "begin_value TFalse st = Some (push_value (JBool False) st)"
| "begin_value TNull st = Some (push_value JNull st)"
| "begin_value _ st = None"

fun begin_key :: "token \<Rightarrow> frame list \<Rightarrow> (phase \<times> frame list) option" where
  "begin_key (TString k) (ObjectFrame ms _ # st) = Some (AfterKey, ObjectFrame ms (Some k) # st)"
| "begin_key _ _ = None"

fun is_array :: "frame list \<Rightarrow> bool" where
  "is_array (ArrayFrame es # st) = True"
| "is_array _ = False"

fun is_object :: "frame list \<Rightarrow> bool" where
  "is_object (ObjectFrame ms k # st) = True"
| "is_object _ = False"

fun step :: "phase \<times> frame list \<Rightarrow> token \<Rightarrow> (phase \<times> frame list) option" where
  "step (BeginValue, st) tok = begin_value tok st"
| "step (BeginValueOrEmpty, st) tok =
     (if tok = RBracket then close_frame st else begin_value tok st)"
| "step (BeginStringOrEmpty, st) tok =
     (if tok = RBrace then close_frame st else begin_key tok st)"
| "step (BeginString, st) tok = begin_key tok st"
| "step (AfterKey, st) tok = (if tok = Colon then Some (BeginValue, st) else None)"
| "step (EndValue, st) tok =
     (if is_array st then
        (if tok = Comma then Some (BeginValue, st)
         else if tok = RBracket then close_frame st else None)
      else if is_object st then
        (if tok = Comma then Some (BeginString, st)
         else if tok = RBrace then close_frame st else None)
      else None)"
| "step (EndTop v, st) tok = None"

fun run :: "phase \<times> frame list \<Rightarrow> token list \<Rightarrow> (phase \<times> frame list) option" where
  "run p [] = Some p"
| "run p (tok # toks) = (case step p tok of None \<Rightarrow> None | Some p' \<Rightarrow> run p' toks)"

definition parse :: "string \<Rightarrow> json option" where
  "parse data =
     (case lex data of
        None \<Rightarrow> None
      | Some toks \<Rightarrow>
          (case run (BeginValue, []) toks of
             Some (EndTop v, st) \<Rightarrow> Some v
           | _ \<Rightarrow> None))"

text \<open>The two kinds of error of \<^verbatim>\<open>Unmarshal\<close>: \<^verbatim>\<open>*SyntaxError\<close> and \<^verbatim>\<open>*UnmarshalTypeError\<close>.\<close>

datatype decode_error = SyntaxError | UnmarshalTypeError

text \<open>
  Matching a key against the field names ignoring case: Unicode's simple case folding
  takes only two runes beyond ASCII to ASCII letters, \<^verbatim>\<open>U+017F\<close> (to \<^verbatim>\<open>S\<close>) and
  \<^verbatim>\<open>U+212A\<close> (to \<^verbatim>\<open>K\<close>); \<open>fold_key\<close> is \<open>None\<close> for a key with any other rune beyond
  ASCII, which matches no field name.
\<close>

definition upper :: "char \<Rightarrow> char" where
  "upper c = (if between CHR ''a'' CHR ''z'' c then char_of (byte c - 32) else c)"

fun fold_key :: "string \<Rightarrow> string option" where
  "fold_key [] = Some []"
| "fold_key (c # s) =
     (if byte c < 0x80 then map_option ((#) (upper c)) (fold_key s)
      else if c = CHR 0xC5 \<and> take 1 s = [CHR 0xBF] then
        map_option ((#) CHR ''S'') (fold_key (drop 1 s))
      else if c = CHR 0xE2 \<and> take 2 s = [CHR 0x84, CHR 0xAA] then
        map_option ((#) CHR ''K'') (fold_key (drop 2 s))
      else None)"

definition field_names :: "string list" where
  "field_names =
     [''variable_type'', ''key'', ''value'', ''protected'', ''masked'', ''environment_scope'']"

definition find_field :: "string \<Rightarrow> string option" where
  "find_field k =
     (if k \<in> set field_names then Some k
      else find (\<lambda>n. fold_key k = Some (map upper n)) field_names)"

text \<open>Storing a value into a field of type \<^verbatim>\<open>string\<close>, and into one of type \<^verbatim>\<open>bool\<close>.\<close>

definition store_string ::
  "(string \<Rightarrow> EnvVar) \<Rightarrow> json \<Rightarrow> EnvVar \<Rightarrow> EnvVar \<times> decode_error option" where
  "store_string upd j v =
     (case j of
        JString lit \<Rightarrow>
          (case unquote lit of Some s \<Rightarrow> (upd s, None) | None \<Rightarrow> (v, Some SyntaxError))
      | JNull \<Rightarrow> (v, None)
      | _ \<Rightarrow> (v, Some UnmarshalTypeError))"

definition store_bool ::
  "(bool \<Rightarrow> EnvVar) \<Rightarrow> json \<Rightarrow> EnvVar \<Rightarrow> EnvVar \<times> decode_error option" where
  "store_bool upd j v =
     (case j of
        JBool b \<Rightarrow> (upd b, None)
      | JNull \<Rightarrow> (v, None)
      | _ \<Rightarrow> (v, Some UnmarshalTypeError))"

definition store_field :: "string \<Rightarrow> json \<Rightarrow> EnvVar \<Rightarrow> EnvVar \<times> decode_error option" where
  "store_field n j v =
     (if n = ''variable_type'' then store_string (\<lambda>s. v\<lparr>VariableType := s\<rparr>) j v
      else if n = ''key'' then store_string (\<lambda>s. v\<lparr>Key := s\<rparr>) j v
      else if n = ''value'' then store_string (\<lambda>s. v\<lparr>Value := s\<rparr>) j v
      else if n = ''protected'' then store_bool (\<lambda>b. v\<lparr>Protected := b\<rparr>) j v
      else if n = ''masked'' then store_bool (\<lambda>b. v\<lparr>Masked := b\<rparr>) j v
      else if n = ''environment_scope'' then store_string (\<lambda>s. v\<lparr>EnvironmentScope := s\<rparr>) j v
      else (v, None))"

text \<open>\<^verbatim>\<open>saveError\<close> keeps the first error.\<close>

definition saveError :: "decode_error option \<Rightarrow> decode_error option \<Rightarrow> decode_error option" where
  "saveError saved err = (case saved of None \<Rightarrow> err | Some e \<Rightarrow> Some e)"

fun store_member ::
  "EnvVar \<times> decode_error option \<Rightarrow> string \<times> json \<Rightarrow> EnvVar \<times> decode_error option" where
  "store_member (v, saved) (klit, j) =
     (case unquote klit of
        None \<Rightarrow> (v, saveError saved (Some SyntaxError))
      | Some k \<Rightarrow>
          (case find_field k of
             None \<Rightarrow> (v, saved)
           | Some n \<Rightarrow> (case store_field n j v of (v', err) \<Rightarrow> (v', saveError saved err))))"

definition store_value :: "json \<Rightarrow> EnvVar \<Rightarrow> EnvVar \<times> decode_error option" where
  "store_value j v =
     (case j of
        JObject ms \<Rightarrow> foldl store_member (v, None) ms
      | JNull \<Rightarrow> (v, None)
      | _ \<Rightarrow> (v, Some UnmarshalTypeError))"

text \<open>\<^verbatim>\<open>json.Unmarshal(data, &v)\<close>: the record \<open>v\<close> after the call, and the error.\<close>

definition json_Unmarshal :: "string \<Rightarrow> EnvVar \<Rightarrow> EnvVar \<times> decode_error option" where
  "json_Unmarshal data v =
     (case parse data of
        None \<Rightarrow> (v, Some SyntaxError)
      | Some j \<Rightarrow> store_value j v)"

definition zero_EnvVar :: EnvVar where
  "zero_EnvVar = \<lparr>VariableType = [], Key = [], Value = [], Protected = False, Masked = False,
                  EnvironmentScope = []\<rparr>"

subsection \<open>Names for the proofs about decoding\<close>

definition prepend :: "string \<Rightarrow> (string \<times> string) option \<Rightarrow> (string \<times> string) option" where
  "prepend xs r = map_option (\<lambda>(lit, rest). (xs @ lit, rest)) r"

definition EnvVar_tokens :: "EnvVar \<Rightarrow> token list" where
  "EnvVar_tokens v =
     [LBrace,
      TString ''variable_type'', Colon, TString (string_body (VariableType v)), Comma,
      TString ''key'', Colon, TString (string_body (Key v)), Comma,
      TString ''value'', Colon, TString (string_body (Value v)), Comma,
      TString ''protected'', Colon, (if Protected v then TTrue else TFalse), Comma,
      TString ''masked'', Colon, (if Masked v then TTrue else TFalse), Comma,
      TString ''environment_scope'', Colon, TString (string_body (EnvironmentScope v)),
      RBrace]"

definition EnvVar_members :: "EnvVar \<Rightarrow> (string \<times> json) list" where
  "EnvVar_members v =
     [(''variable_type'', JString (string_body (VariableType v))),
      (''key'', JString (string_body (Key v))),
      (''value'', JString (string_body (Value v))),
      (''protected'', JBool (Protected v)),
      (''masked'', JBool (Masked v)),
      (''environment_scope'', JString (string_body (EnvironmentScope v)))]"

text \<open>The record with each string field read and written back rune by rune.\<close>

definition coerced :: "EnvVar \<Rightarrow> EnvVar" where
  "coerced v =
     \<lparr>VariableType = coerce_utf8 (VariableType v), Key = coerce_utf8 (Key v),
      Value = coerce_utf8 (Value v), Protected = Protected v, Masked = Masked v,
      EnvironmentScope = coerce_utf8 (EnvironmentScope v)\<rparr>"

text \<open>A record whose value is a single byte that is not UTF-8.\<close>

definition invalid_utf8_var :: EnvVar where
  "invalid_utf8_var = (demo_var ''A'')\<lparr>Value := [CHR 0xFF]\<rparr>"

section \<open>Facts\<close>

subsection \<open>Percent-encoding\<close>

lemma below_16_cases:
  "n < 16 \<Longrightarrow> n = 0 \<or> n = 1 \<or> n = 2 \<or> n = 3 \<or> n = 4 \<or> n = 5 \<or> n = 6 \<or> n = 7 \<or> n = 8 \<or> n = 9 \<or>
     n = 10 \<or> n = 11 \<or> n = 12 \<or> n = 13 \<or> n = 14 \<or> n = (15::nat)"
  by arith

lemma upperhex_cases: "n < 16 \<Longrightarrow> ishex (upperhex n) \<and> unhex (upperhex n) = n \<and> upperhex n \<noteq> CHR ''/''"
  by (drule below_16_cases, elim disjE)
     (simp_all add: upperhex_def ishex_def unhex_def byte_def between_def)

lemma byte_lt: "byte c < 256" by (simp add: byte_def)

lemma PathUnescape_PathEscape: "PathUnescape (PathEscape p) = Some p"
proof (induction p)
  case Nil show ?case by simp
next
  case (Cons c p)
  have d: "byte c div 16 < 16" using byte_lt[of c] by simp
  have m: "byte c mod 16 < 16" by simp
  have pc: "\<not> shouldEscape c \<Longrightarrow> c \<noteq> CHR ''%''"
    by (auto simp: shouldEscape_def isalnum_def between_def byte_def)
  have bk: "char_of (byte c div 16 * 16 + byte c mod 16) = c"
    by (simp add: byte_def)
  show ?case using Cons upperhex_cases[OF d] upperhex_cases[OF m] pc bk
    by simp
qed

lemma no_slash: "CHR ''/'' \<notin> set (PathEscape p)"
proof (induction p)
  case Nil show ?case by simp
next
  case (Cons c p)
  have d: "byte c div 16 < 16" using byte_lt[of c] by simp
  have m: "byte c mod 16 < 16" by simp
  have s: "shouldEscape CHR ''/''" by (simp add: shouldEscape_def isalnum_def between_def byte_def)
  show ?case using Cons upperhex_cases[OF d] upperhex_cases[OF m] s by auto
qed

subsection \<open>Traces\<close>

lemma requests_append [simp]: "requests (a @ b) = requests a @ requests b"
  by (simp add: requests_def)

lemma files_append [simp]: "files (a @ b) = files a @ files b"
  by (simp add: files_def)

lemma logs_append [simp]: "logs (a @ b) = logs a @ logs b"
  by (simp add: logs_def)

lemma calls_append [simp]: "calls (a @ b) = calls a @ calls b"
  by (simp add: calls_def)

lemma requests_Cons [simp]: "requests (x # t) = request_of x @ requests t" "requests [] = []"
  by (simp_all add: requests_def)

lemma files_Cons [simp]: "files (x # t) = file_of x @ files t" "files [] = []"
  by (simp_all add: files_def)

lemma logs_Cons [simp]: "logs (x # t) = log_of x @ logs t" "logs [] = []"
  by (simp_all add: logs_def)

lemma calls_Cons [simp]: "calls (x # t) = call_of x @ calls t" "calls [] = []"
  by (simp_all add: calls_def)

lemma mutating_append [simp]:
  "mutating_requests (a @ b) = mutating_requests a @ mutating_requests b"
  by (simp add: mutating_requests_def)

lemma mutating_Cons [simp]:
  "mutating_requests [] = []"
  "mutating_requests (x # t) = filter (\<lambda>r. Method r \<noteq> ''GET'') (request_of x) @ mutating_requests t"
  by (simp_all add: mutating_requests_def)

subsection \<open>The client's operations\<close>

lemma makeRequest_cases:
  "makeRequest e c m path b =
     (case http_NewRequest e m (baseURL c @ ''/api/v4/'' @ path) of
        Some err \<Rightarrow> Inl err
      | None \<Rightarrow> Inr \<lparr>Method = m, URL = baseURL c @ ''/api/v4/'' @ path,
               Header = [(''PRIVATE-TOKEN'', token c), (''Content-Type'', ''application/json'')],
               ReqBody = b\<rparr>)"
  by (simp add: makeRequest_def Let_def split: option.splits)

lemma CreateVariable_body_trace:
  assumes "CreateVariable_body e c p v False t = (r, t')"
  shows "calls t' = calls t \<and> files t' = files t \<and> logs t' = logs t \<and>
         requests t' = requests t @ (if can_build e c ''POST'' p then [create_request c p v] else [])"
proof (cases "can_build e c ''POST'' p")
  case True
  then have "http_NewRequest e ''POST''
      (baseURL c @ ''/api/v4/'' @ ''projects/'' @ PathEscape p @ ''/variables'') = None"
    by (simp add: can_build_def)
  with assms True show ?thesis
    by (auto simp: CreateVariable_body_def json_Marshal_def makeRequest_cases
          create_request_def Let_def split: DoResult.splits if_splits)
next
  case False
  then obtain err where "http_NewRequest e ''POST''
      (baseURL c @ ''/api/v4/'' @ ''projects/'' @ PathEscape p @ ''/variables'') = Some err"
    by (auto simp: can_build_def)
  with assms False show ?thesis
    by (auto simp: CreateVariable_body_def json_Marshal_def makeRequest_cases Let_def)
qed

lemma CreateVariable_trace:
  assumes "CreateVariable e c p v False t = (r, t')"
  shows "calls t' = calls t @ [(p, v, False, r)] \<and> files t' = files t \<and> logs t' = logs t \<and>
         requests t' = requests t @ (if can_build e c ''POST'' p then [create_request c p v] else [])"
proof -
  obtain r0 t0 where b: "CreateVariable_body e c p v False t = (r0, t0)"
    by (cases "CreateVariable_body e c p v False t")
  with assms have "r = r0" "t' = t0 @ [CreateVariableCall p v False r0]"
    by (auto simp: CreateVariable_def)
  with CreateVariable_body_trace [OF b] show ?thesis by simp
qed

lemma GetVariables_unbuilt:
  "\<not> can_build e c ''GET'' p \<Longrightarrow>
   \<exists>err. http_NewRequest e ''GET'' (URL (list_request c p)) = Some err \<and>
         GetVariables e c p t = ((None, Some err), t)"
  by (auto simp: can_build_def GetVariables_def makeRequest_cases list_request_def Let_def)

lemma GetVariables_built:
  "can_build e c ''GET'' p \<Longrightarrow>
   GetVariables e c p t =
     ((case http_Do e t (list_request c p) of
         DoError err \<Rightarrow> (None, Some err)
       | Response s body \<Rightarrow>
           if s = 404 then (None, Some (''project not found: '' @ p))
           else if s \<noteq> 200 then
             (None, Some (''failed to get variables: status code '' @ Itoa s @
                          '', response: '' @ ReadAll_bytes body))
           else (case json_Decode e body of
                   (vs, Some err) \<Rightarrow> (None, Some err)
                 | (vs, None) \<Rightarrow> (vs, None))),
      t @ [HttpDo (list_request c p)])"
  by (auto simp: can_build_def GetVariables_def makeRequest_cases list_request_def Let_def
        split: DoResult.splits option.splits prod.splits)

lemma GetVariables_trace:
  "calls (snd (GetVariables e c p t)) = calls t \<and>
   files (snd (GetVariables e c p t)) = files t \<and>
   logs (snd (GetVariables e c p t)) = logs t \<and>
   requests (snd (GetVariables e c p t)) =
     requests t @ (if can_build e c ''GET'' p then [list_request c p] else [])"
proof (cases "can_build e c ''GET'' p")
  case True
  then show ?thesis by (simp add: GetVariables_built)
next
  case False
  from GetVariables_unbuilt [OF this, of t] show ?thesis using False by auto
qed

lemma mutating_GetVariables:
  "mutating_requests (snd (GetVariables e c p t)) = mutating_requests t"
  using GetVariables_trace [of e c p t]
  by (simp add: mutating_requests_def list_request_def)

lemma writeDryRunOutput_trace:
  "writeDryRunOutput e name src tgt vs t = (r, t') \<Longrightarrow>
   calls t' = calls t \<and> requests t' = requests t \<and> logs t' = logs t \<and>
   (files t' = files t \<and> r \<noteq> None \<or>
    (\<exists>data. json_MarshalIndent e \<lparr>Timestamp = time_Now_RFC3339 e t, SourceProject = src,
                TargetProject = tgt, Variables = vs\<rparr> [] ''  '' = Inr data \<and>
            files t' = files t @ [(name, data, mode_0644)]))"
  by (auto simp: writeDryRunOutput_def Let_def split: sum.splits)

subsection \<open>The loop\<close>

lemma transfer_loop_trace:
  "transfer_loop e c p vs n t = (n', t') \<Longrightarrow>
   \<exists>rs. length rs = length vs \<and>
        calls t' = calls t @ map2 (\<lambda>v r. (p, v, False, r)) vs rs \<and>
        n' = n + int (length (filter (\<lambda>r. r = None) rs)) \<and>
        logs t' = logs t @ concat (map2 loop_logs vs rs) \<and>
        files t' = files t \<and>
        requests t' = requests t @ (if can_build e c ''POST'' p then map (create_request c p) vs else [])"
proof (induction vs arbitrary: n t)
  case Nil
  then show ?case by simp
next
  case (Cons v vs)
  obtain r t1 where cv: "CreateVariable e c p v False (t @ [LogPrint (''Transferring variable: '' @ Key v)]) = (r, t1)"
    by (cases "CreateVariable e c p v False (t @ [LogPrint (''Transferring variable: '' @ Key v)])")
  note tr = CreateVariable_trace [OF cv]
  show ?case
  proof (cases r)
    case None
    with Cons.prems cv have "transfer_loop e c p vs (n + 1) t1 = (n', t')" by simp
    from Cons.IH [OF this] obtain rs where rs: "length rs = length vs"
      "calls t' = calls t1 @ map2 (\<lambda>v r. (p, v, False, r)) vs rs"
      "n' = n + 1 + int (length (filter (\<lambda>r. r = None) rs))"
      "logs t' = logs t1 @ concat (map2 loop_logs vs rs)"
      "files t' = files t1"
      "requests t' = requests t1 @ (if can_build e c ''POST'' p then map (create_request c p) vs else [])"
      by blast
    show ?thesis
      by (rule exI [of _ "None # rs"]) (use rs tr None in simp)
  next
    case (Some err)
    with Cons.prems cv have "transfer_loop e c p vs n (t1 @ [LogPrint (''Error transferring variable '' @ Key v @ '': '' @ err)]) = (n', t')" by simp
    from Cons.IH [OF this] obtain rs where rs: "length rs = length vs"
      "calls t' = calls (t1 @ [LogPrint (''Error transferring variable '' @ Key v @ '': '' @ err)]) @ map2 (\<lambda>v r. (p, v, False, r)) vs rs"
      "n' = n + int (length (filter (\<lambda>r. r = None) rs))"
      "logs t' = logs (t1 @ [LogPrint (''Error transferring variable '' @ Key v @ '': '' @ err)]) @ concat (map2 loop_logs vs rs)"
      "files t' = files (t1 @ [LogPrint (''Error transferring variable '' @ Key v @ '': '' @ err)])"
      "requests t' = requests (t1 @ [LogPrint (''Error transferring variable '' @ Key v @ '': '' @ err)]) @ (if can_build e c ''POST'' p then map (create_request c p) vs else [])"
      by blast
    show ?thesis
      by (rule exI [of _ "Some err # rs"]) (use rs tr Some in simp)
  qed
qed

lemma map2_results:
  "length rs = length vs \<Longrightarrow> map call_result (map2 (\<lambda>v r. (p, v, d, r)) vs rs) = rs"
  by (induction rs arbitrary: vs) (auto simp: Suc_length_conv)

lemma map2_args:
  "length rs = length vs \<Longrightarrow>
   map call_args (map2 (\<lambda>v r. (p, v, d, r)) vs rs) = map (\<lambda>v. (p, v, d)) vs"
  by (induction rs arbitrary: vs) (auto simp: Suc_length_conv)

lemma count_results:
  "length (filter (\<lambda>c. call_result c = None) cs) =
   length (filter (\<lambda>r. r = None) (map call_result cs))"
  by (simp add: filter_map comp_def)

lemma loop_error_logs:
  "length rs = length vs \<Longrightarrow>
   filter (\<lambda>l. take 28 l = ''Error transferring variable '') (concat (map2 loop_logs vs rs)) =
   map failure_log (filter (\<lambda>c. call_result c \<noteq> None) (map2 (\<lambda>v r. (p, v, d, r)) vs rs))"
proof (induction rs arbitrary: vs)
  case Nil
  then show ?case by simp
next
  case (Cons r rs)
  then obtain v vs' where vs: "vs = v # vs'" "length rs = length vs'"
    by (auto simp: Suc_length_conv)
  show ?case using Cons.IH [OF vs(2)] vs by (cases r) simp_all
qed

lemma loop_failures_count:
  "length rs = length vs \<Longrightarrow>
   length (filter (\<lambda>c. call_result c \<noteq> None) (map2 (\<lambda>v r. (p, v, d, r)) vs rs)) +
   length (filter (\<lambda>r. r = None) rs) = length vs"
proof (induction rs arbitrary: vs)
  case Nil
  then show ?case by simp
next
  case (Cons r rs)
  then obtain v vs' where vs: "vs = v # vs'" "length rs = length vs'"
    by (auto simp: Suc_length_conv)
  show ?case using Cons.IH [OF vs(2)] vs by (cases r) simp_all
qed

lemma loop_calls_members:
  "length rs = length vs \<Longrightarrow> c \<in> set (map2 (\<lambda>v r. (p, v, d, r)) vs rs) \<Longrightarrow>
   \<exists>v r. c = (p, v, d, r) \<and> v \<in> set vs"
  by (auto simp: set_zip)

subsection \<open>The four ways through \<open>main\<close>\<close>

lemma GetVariables_main:
  "GetVariables e (NewGitLabClient (TrimRight (gitlabURL f) ''/'') (tokenFlag f)) (sourceProject f)
     [LogPrint (''Fetching variables from source project: '' @ sourceProject f)] =
   (listing e f, fetched e f)"
  by (simp add: listing_def fetched_def client_of_def)

lemma fetched_trace:
  "calls (fetched e f) = [] \<and> files (fetched e f) = [] \<and> mutating_requests (fetched e f) = [] \<and>
   logs (fetched e f) = [''Fetching variables from source project: '' @ sourceProject f]"
  using GetVariables_trace [of e "client_of f" "sourceProject f"
      "[LogPrint (''Fetching variables from source project: '' @ sourceProject f)]"]
    mutating_GetVariables [of e "client_of f" "sourceProject f"
      "[LogPrint (''Fetching variables from source project: '' @ sourceProject f)]"]
  by (simp add: fetched_def mutating_requests_def)

lemma main_missing:
  "\<not> required_flags_set f \<Longrightarrow> main e f = (1, usage_example)"
  by (auto simp: main_def required_flags_set_def)

lemma main_listing_failed:
  "required_flags_set f \<Longrightarrow> listing e f = (vs, Some err) \<Longrightarrow>
   main e f = (1, fetched e f @ [LogPrint (''Error getting variables from source project: '' @ err)])"
  by (unfold main_def Let_def GetVariables_main)
     (simp add: required_flags_set_def client_of_def)

lemma main_dry:
  "required_flags_set f \<Longrightarrow> listing e f = (vs, None) \<Longrightarrow> dryRun f \<Longrightarrow>
   main e f =
     (case writeDryRunOutput e (outputFile f) (sourceProject f) (targetProject f) vs
             (fetched e f @ [LogPrint (''Performing dry run, writing output to '' @ outputFile f)]) of
        (Some err, t2) \<Rightarrow> (1, t2 @ [LogPrint (''Error writing dry run output: '' @ err)])
      | (None, t2) \<Rightarrow>
          (0, t2 @ [LogPrint (''Dry run completed. Found '' @ Itoa (len vs) @
                              '' variables to transfer'')]))"
  by (unfold main_def Let_def GetVariables_main)
     (simp add: required_flags_set_def client_of_def)

lemma main_live:
  "required_flags_set f \<Longrightarrow> listing e f = (vs, None) \<Longrightarrow> \<not> dryRun f \<Longrightarrow>
   main e f =
     (case transfer_loop e (client_of f) (targetProject f) (elems vs) 0
             (fetched e f @ [LogPrint (''Starting transfer of '' @ Itoa (len vs) @
                 '' variables from '' @ sourceProject f @ '' to '' @ targetProject f)]) of
        (successCount, t2) \<Rightarrow>
          (0, t2 @ [LogPrint (''Transfer completed. Successfully transferred '' @
                Itoa successCount @ ''/'' @ Itoa (len vs) @ '' variables'')]))"
  by (unfold main_def Let_def GetVariables_main)
     (simp add: required_flags_set_def client_of_def)

text \<open>What a live run leaves behind, in one statement.\<close>

lemma live_run_trace:
  assumes "required_flags_set f" and "\<not> dryRun f" and "listing e f = (vars, None)"
  shows "\<exists>rs t2. length rs = length (elems vars) \<and>
           main e f = (0, t2 @ [LogPrint (''Transfer completed. Successfully transferred '' @
               Itoa (int (length (filter (\<lambda>r. r = None) rs))) @ ''/'' @ Itoa (len vars) @ '' variables'')]) \<and>
           calls t2 = map2 (\<lambda>v r. (targetProject f, v, False, r)) (elems vars) rs \<and>
           logs t2 = [''Fetching variables from source project: '' @ sourceProject f,
                      ''Starting transfer of '' @ Itoa (len vars) @ '' variables from '' @
                        sourceProject f @ '' to '' @ targetProject f] @
                     concat (map2 loop_logs (elems vars) rs) \<and>
           files t2 = [] \<and>
           mutating_requests t2 =
             (if can_build e (client_of f) ''POST'' (targetProject f)
              then map (create_request (client_of f) (targetProject f)) (elems vars) else [])"
proof -
  let ?t = "fetched e f @ [LogPrint (''Starting transfer of '' @ Itoa (len vars) @
      '' variables from '' @ sourceProject f @ '' to '' @ targetProject f)]"
  obtain n t2 where loop: "transfer_loop e (client_of f) (targetProject f) (elems vars) 0 ?t = (n, t2)"
    by (cases "transfer_loop e (client_of f) (targetProject f) (elems vars) 0 ?t")
  from transfer_loop_trace [OF loop] obtain rs where rs: "length rs = length (elems vars)"
    "calls t2 = calls ?t @ map2 (\<lambda>v r. (targetProject f, v, False, r)) (elems vars) rs"
    "n = 0 + int (length (filter (\<lambda>r. r = None) rs))"
    "logs t2 = logs ?t @ concat (map2 loop_logs (elems vars) rs)"
    "files t2 = files ?t"
    "requests t2 = requests ?t @
       (if can_build e (client_of f) ''POST'' (targetProject f)
        then map (create_request (client_of f) (targetProject f)) (elems vars) else [])"
    by blast
  have m: "main e f = (0, t2 @ [LogPrint (''Transfer completed. Successfully transferred '' @
      Itoa n @ ''/'' @ Itoa (len vars) @ '' variables'')])"
    using main_live [OF assms(1) assms(3) assms(2)] loop by simp
  have post: "filter (\<lambda>r. Method r \<noteq> ''GET'') (map (create_request c p) vs) = map (create_request c p) vs"
    for c p vs by (induction vs) (simp_all add: create_request_def)
  have mut: "mutating_requests t2 =
      (if can_build e (client_of f) ''POST'' (targetProject f)
       then map (create_request (client_of f) (targetProject f)) (elems vars) else [])"
    using rs(6) fetched_trace [of e f] post
    by (simp add: mutating_requests_def)
  show ?thesis
    apply (rule exI [of _ rs], rule exI [of _ t2])
    using rs m mut fetched_trace [of e f] by simp
qed

subsection \<open>The sample runs\<close>

lemma demo_required: "required_flags_set (demo_flags d)"
  by (simp add: required_flags_set_def demo_flags_def)

lemma demo_listing: "listing demo_env (demo_flags d) = (Some [demo_var ''A'', demo_var ''B''], None)"
  by (simp add: listing_def GetVariables_def makeRequest_def demo_env_def Let_def)

subsection \<open>More on the sample runs and on paths\<close>

lemma demo_can_build: "can_build (demo_env_answering x) c m p" "can_build demo_env_undecodable c m p"
  "can_build demo_env c m p"
  by (simp_all add: can_build_def demo_env_answering_def demo_env_undecodable_def demo_env_def)

lemma singleton_list: "length xs = 1 \<Longrightarrow> \<exists>x. xs = [x]"
  by (cases xs) auto

lemma split_slash_segment:
  "CHR ''/'' \<notin> set a \<Longrightarrow> split_slash (a @ CHR ''/'' # rest) = a # split_slash rest"
  by (induction a) auto

lemma split_slash_last: "CHR ''/'' \<notin> set a \<Longrightarrow> split_slash a = [a]"
  by (induction a) auto

lemma variables_path_segments:
  "map PathUnescape (split_slash (''projects/'' @ PathEscape p @ ''/variables'')) =
     [Some ''projects'', Some p, Some ''variables'']"
proof -
  have "split_slash (''projects'' @ CHR ''/'' # (PathEscape p @ CHR ''/'' # ''variables'')) =
          ''projects'' # split_slash (PathEscape p @ CHR ''/'' # ''variables'')"
    by (rule split_slash_segment) simp
  also have "split_slash (PathEscape p @ CHR ''/'' # ''variables'') =
          PathEscape p # split_slash ''variables''"
    by (rule split_slash_segment) (rule no_slash)
  also have "split_slash ''variables'' = [''variables'']"
    by (rule split_slash_last) simp
  finally have "split_slash (''projects/'' @ PathEscape p @ ''/variables'') =
      [''projects'', PathEscape p, ''variables'']"
    by simp
  then show ?thesis
    by (simp add: PathUnescape_PathEscape)
qed

lemma Itoa_400: "Itoa 400 = ''400''"
  by (simp add: Itoa_def nat_digits.simps decimal_digit_def)

lemma demo_create:
  "CreateVariable demo_env c p v False t =
     (if length (requests t) = 1
      then (Some (''failed to create variable '' @ Key v @ '': status code 400, response: taken''),
            t @ [HttpDo (create_request c p v),
                 CreateVariableCall p v False
                   (Some (''failed to create variable '' @ Key v @ '': status code 400, response: taken''))])
      else (None, t @ [HttpDo (create_request c p v), CreateVariableCall p v False None]))"
  by (simp add: CreateVariable_def CreateVariable_body_def makeRequest_def json_Marshal_def
        demo_env_def Let_def create_request_def Itoa_400)

lemma demo_fetched_requests:
  "requests (fetched demo_env (demo_flags d)) = [list_request (client_of (demo_flags d)) ''g/a'']"
  using GetVariables_trace [of demo_env "client_of (demo_flags d)" "''g/a''"
      "[LogPrint (''Fetching variables from source project: '' @ ''g/a'')]"]
  by (simp add: fetched_def demo_can_build demo_flags_def)

lemma demo_live_calls:
  "calls (snd (main demo_env (demo_flags False))) =
     [(''g/b'', demo_var ''A'', False, Some ''failed to create variable A: status code 400, response: taken''),
      (''g/b'', demo_var ''B'', False, None)]"
proof -
  have f: "\<not> dryRun (demo_flags False)" "targetProject (demo_flags False) = ''g/b''"
    by (simp_all add: demo_flags_def)
  have k: "Key (demo_var k) = k" for k by (simp add: demo_var_def)
  show ?thesis
    using fetched_trace [of demo_env "demo_flags False"]
    by (simp add: main_live [OF demo_required demo_listing f(1)] elems_def f(2) demo_create
        demo_fetched_requests k)
qed

section \<open>The claims\<close>

text \<open>
  C1. In a run with the dry-run flag set, \<^verbatim>\<open>CreateVariable\<close> is never invoked and no
  request other than the listing's \<^verbatim>\<open>GET\<close> is sent; a file that is written is the
  output file, and its content is the indented JSON of a report whose \<^verbatim>\<open>variables\<close>
  are the slice that \<^verbatim>\<open>GetVariables\<close> returned, unchanged and in its order.
  \<^verbatim>\<open>os.WriteFile\<close> is called (and may itself fail) whenever the required flags are
  set, the listing succeeds and \<^verbatim>\<open>MarshalIndent\<close> does not fail.
\<close>

theorem dry_run_no_creation_and_report:
  assumes "dryRun f"
  shows "calls (snd (main e f)) = [] \<and>
         mutating_requests (snd (main e f)) = [] \<and>
         (files (snd (main e f)) = [] \<or>
          (\<exists>ts data.
             snd (listing e f) = None \<and>
             json_MarshalIndent e
               \<lparr>Timestamp = ts, SourceProject = sourceProject f,
                TargetProject = targetProject f, Variables = fst (listing e f)\<rparr> [] ''  '' = Inr data \<and>
             files (snd (main e f)) = [(outputFile f, data, mode_0644)])) \<and>
         (required_flags_set f \<and> snd (listing e f) = None \<and>
          (\<forall>out. \<exists>data. json_MarshalIndent e out [] ''  '' = Inr data) \<longrightarrow>
          length (files (snd (main e f))) = 1)"
proof (cases "required_flags_set f")
  case False
  then show ?thesis
    by (simp add: main_missing usage_example_def mutating_requests_def)
next
  case True
  obtain vs r where l: "listing e f = (vs, r)" by (cases "listing e f")
  show ?thesis
  proof (cases r)
    case (Some err)
    with main_listing_failed [OF True] l fetched_trace [of e f] show ?thesis
      by (simp add: mutating_requests_def)
  next
    case None
    let ?t = "fetched e f @ [LogPrint (''Performing dry run, writing output to '' @ outputFile f)]"
    obtain w t2 where w: "writeDryRunOutput e (outputFile f) (sourceProject f) (targetProject f) vs ?t = (w, t2)"
      by (cases "writeDryRunOutput e (outputFile f) (sourceProject f) (targetProject f) vs ?t")
    from writeDryRunOutput_trace [OF w] fetched_trace [of e f]
    have t2: "calls t2 = []" "requests t2 = requests (fetched e f)"
      "files t2 = [] \<and> w \<noteq> None \<or>
        (\<exists>data. json_MarshalIndent e \<lparr>Timestamp = time_Now_RFC3339 e ?t, SourceProject = sourceProject f,
                TargetProject = targetProject f, Variables = vs\<rparr> [] ''  '' = Inr data \<and>
            files t2 = [(outputFile f, data, mode_0644)])"
      by auto
    have m: "\<exists>c msg. main e f = (c, t2 @ [LogPrint msg])"
      using main_dry [OF True _ assms] l None w by (cases w) auto
    then obtain c msg where m: "main e f = (c, t2 @ [LogPrint msg])" by blast
    have "mutating_requests t2 = []"
      using t2(2) fetched_trace [of e f] by (simp add: mutating_requests_def)
    moreover have "length (files t2) = 1"
      if "\<forall>out. \<exists>data. json_MarshalIndent e out [] ''  '' = Inr data"
    proof -
      from that obtain data where
        "json_MarshalIndent e \<lparr>Timestamp = time_Now_RFC3339 e ?t, SourceProject = sourceProject f,
           TargetProject = targetProject f, Variables = vs\<rparr> [] ''  '' = Inr data"
        by blast
      with w fetched_trace [of e f] show ?thesis
        by (auto simp: writeDryRunOutput_def Let_def)
    qed
    ultimately show ?thesis using m t2 l None by auto
  qed
qed

theorem dry_run_no_creation_and_report_witness:
  "calls (snd (main demo_env (demo_flags True))) = [] \<and>
   mutating_requests (snd (main demo_env (demo_flags True))) = [] \<and>
   length (files (snd (main demo_env (demo_flags True)))) = 1"
  using dry_run_no_creation_and_report [of "demo_flags True" demo_env] demo_required [of True]
    demo_listing [of True]
  by (simp add: demo_flags_def demo_env_def)

text \<open>
  C2. In a live run over a fetched slice of \<open>Y\<close> variables, the count in the final
  log line is the number of invocations of \<^verbatim>\<open>CreateVariable\<close> that returned
  \<^verbatim>\<open>nil\<close>, and it is at most \<open>Y\<close>.
\<close>

theorem live_run_success_count:
  assumes "required_flags_set f" and "\<not> dryRun f" and "listing e f = (vars, None)"
  shows "last (snd (main e f)) =
           LogPrint (''Transfer completed. Successfully transferred '' @
             Itoa (successes (snd (main e f))) @ ''/'' @ Itoa (len vars) @ '' variables'') \<and>
         successes (snd (main e f)) \<le> len vars"
proof -
  let ?t = "fetched e f @ [LogPrint (''Starting transfer of '' @ Itoa (len vars) @
      '' variables from '' @ sourceProject f @ '' to '' @ targetProject f)]"
  obtain n t2 where loop: "transfer_loop e (client_of f) (targetProject f) (elems vars) 0 ?t = (n, t2)"
    by (cases "transfer_loop e (client_of f) (targetProject f) (elems vars) 0 ?t")
  from transfer_loop_trace [OF loop] obtain rs where rs: "length rs = length (elems vars)"
    "calls t2 = calls ?t @ map2 (\<lambda>v r. (targetProject f, v, False, r)) (elems vars) rs"
    "n = 0 + int (length (filter (\<lambda>r. r = None) rs))"
    by blast
  have m: "main e f = (0, t2 @ [LogPrint (''Transfer completed. Successfully transferred '' @
      Itoa n @ ''/'' @ Itoa (len vars) @ '' variables'')])"
    using main_live [OF assms(1) assms(3) assms(2)] loop by simp
  have "calls t2 = map2 (\<lambda>v r. (targetProject f, v, False, r)) (elems vars) rs"
    using rs(2) fetched_trace [of e f] by simp
  then have "length (filter (\<lambda>c. call_result c = None) (calls t2)) = length (filter (\<lambda>r. r = None) rs)"
    using map2_results [OF rs(1)] by (simp add: count_results)
  then have s: "successes (snd (main e f)) = n"
    using m rs(3) by (simp add: successes_def)
  have "n \<le> len vars"
    using rs(1) rs(3) by (simp add: len_def) (metis length_filter_le of_nat_le_iff)
  with s m show ?thesis by simp
qed

theorem live_run_success_count_witness:
  "last (snd (main demo_env (demo_flags False))) =
     LogPrint (''Transfer completed. Successfully transferred '' @
       Itoa (successes (snd (main demo_env (demo_flags False)))) @ ''/'' @
       Itoa (len (Some [demo_var ''A'', demo_var ''B''])) @ '' variables'') \<and>
   successes (snd (main demo_env (demo_flags False))) \<le> len (Some [demo_var ''A'', demo_var ''B''])"
  using live_run_success_count [OF demo_required [of False] _ demo_listing [of False]]
  by (simp add: demo_flags_def)

text \<open>
  C3. When \<^verbatim>\<open>GetVariables\<close> on the source path returns an error, no file is written,
  \<^verbatim>\<open>CreateVariable\<close> is not invoked, no request other than the \<^verbatim>\<open>GET\<close> is
  sent, the error is logged and the process exits with status 1.
\<close>

theorem listing_failure_is_fatal:
  assumes "required_flags_set f" and "snd (listing e f) = Some err"
  shows "files (snd (main e f)) = [] \<and> calls (snd (main e f)) = [] \<and>
         mutating_requests (snd (main e f)) = [] \<and> fst (main e f) = 1 \<and>
         last (snd (main e f)) =
           LogPrint (''Error getting variables from source project: '' @ err)"
proof -
  from assms(2) have "listing e f = (fst (listing e f), Some err)"
    by (metis prod.collapse)
  from main_listing_failed [OF assms(1) this] fetched_trace [of e f] show ?thesis
    by simp
qed

theorem listing_failure_is_fatal_witness:
  "files (snd (main demo_env_404 (demo_flags False))) = [] \<and>
   calls (snd (main demo_env_404 (demo_flags False))) = [] \<and>
   mutating_requests (snd (main demo_env_404 (demo_flags False))) = [] \<and>
   fst (main demo_env_404 (demo_flags False)) = 1 \<and>
   last (snd (main demo_env_404 (demo_flags False))) =
     LogPrint (''Error getting variables from source project: '' @ ''project not found: g/a'')"
proof -
  have "snd (listing demo_env_404 (demo_flags False)) = Some ''project not found: g/a''"
    by (simp add: listing_def GetVariables_def makeRequest_def demo_env_404_def demo_env_def
          demo_flags_def Let_def)
  from listing_failure_is_fatal [OF demo_required this] show ?thesis .
qed

text \<open>
  C6. When one of the four required flags is empty, the program prints the usage text
  and the example invocation, exits with status 1 and sends no request.
\<close>

theorem missing_flag_prints_usage:
  assumes "gitlabURL f = [] \<or> tokenFlag f = [] \<or> sourceProject f = [] \<or> targetProject f = []"
  shows "fst (main e f) = 1 \<and>
         snd (main e f) =
           [FlagUsage,
            Println (CHR 0x0A # ''Example usage:''),
            Println (''  ./gitlab-env-sync '' @ [CHR 0x5C]),
            Println (''    --gitlab-url https://gitlab.com '' @ [CHR 0x5C]),
            Println (''    --token your-token '' @ [CHR 0x5C]),
            Println (''    --source group/project-a '' @ [CHR 0x5C]),
            Println ''    --target group/project-b''] \<and>
         requests (snd (main e f)) = []"
  using assms by (auto simp: main_def usage_example_def)

theorem missing_flag_prints_usage_witness:
  "fst (main demo_env ((demo_flags False)\<lparr>tokenFlag := []\<rparr>)) = 1 \<and>
   requests (snd (main demo_env ((demo_flags False)\<lparr>tokenFlag := []\<rparr>))) = [] \<and>
   hd (snd (main demo_env ((demo_flags False)\<lparr>tokenFlag := []\<rparr>))) = FlagUsage"
  using missing_flag_prints_usage [of "(demo_flags False)\<lparr>tokenFlag := []\<rparr>" demo_env]
  by simp

text \<open>
  C8. The outcomes of \<^verbatim>\<open>GetVariables\<close>, once the request is built: status 404 gives
  the error "project not found" with the project path; any other status but 200 gives
  an error with the status code and the bytes of the response body; an error of the
  transport is returned as it is; a body that the decoder rejects gives the decoder's
  error; status 200 with a body the decoder accepts gives the decoded slice. And it
  returns no error only in that last case.
\<close>

theorem GetVariables_outcomes:
  "(can_build e c ''GET'' p \<longrightarrow>
      (\<forall>body. http_Do e t (list_request c p) = Response 404 body \<longrightarrow>
         fst (GetVariables e c p t) = (None, Some (''project not found: '' @ p))) \<and>
      (\<forall>s body. http_Do e t (list_request c p) = Response s body \<and> s \<noteq> 404 \<and> s \<noteq> 200 \<longrightarrow>
         fst (GetVariables e c p t) =
           (None, Some (''failed to get variables: status code '' @ Itoa s @
                        '', response: '' @ ReadAll_bytes body))) \<and>
      (\<forall>err. http_Do e t (list_request c p) = DoError err \<longrightarrow>
         fst (GetVariables e c p t) = (None, Some err)) \<and>
      (\<forall>body err. http_Do e t (list_request c p) = Response 200 body \<and>
           snd (json_Decode e body) = Some err \<longrightarrow>
         fst (GetVariables e c p t) = (None, Some err)) \<and>
      (\<forall>body. http_Do e t (list_request c p) = Response 200 body \<and>
           snd (json_Decode e body) = None \<longrightarrow>
         fst (GetVariables e c p t) = (fst (json_Decode e body), None))) \<and>
   (snd (fst (GetVariables e c p t)) = None \<longrightarrow>
      can_build e c ''GET'' p \<and>
      (\<exists>body. http_Do e t (list_request c p) = Response 200 body \<and>
              snd (json_Decode e body) = None))"
proof (cases "can_build e c ''GET'' p")
  case True
  show ?thesis
    using True
    by (auto simp: GetVariables_built split: DoResult.splits prod.splits option.splits if_splits)
next
  case False
  from GetVariables_unbuilt [OF this, of t] show ?thesis using False by auto
qed

text \<open>
  C10. Whenever \<^verbatim>\<open>GetVariables\<close> returns an error, the slice it returns is
  \<^verbatim>\<open>nil\<close>, also when the decoder had filled part of it.
\<close>

theorem GetVariables_nil_on_error:
  "snd (fst (GetVariables e c p t)) \<noteq> None \<Longrightarrow> fst (fst (GetVariables e c p t)) = None"
  by (auto simp: GetVariables_def Let_def split: sum.splits DoResult.splits prod.splits option.splits if_splits)

theorem GetVariables_nil_on_error_witness:
  "fst (fst (GetVariables demo_env_404 (client_of (demo_flags False)) ''g/a'' [])) = None"
proof -
  have "snd (fst (GetVariables demo_env_404 (client_of (demo_flags False)) ''g/a'' [])) \<noteq> None"
    by (simp add: GetVariables_def makeRequest_def demo_env_404_def demo_env_def Let_def)
  from GetVariables_nil_on_error [OF this] show ?thesis .
qed

text \<open>
  C8 on five servers: one answers 404, one 500, one does not answer in time, one sends
  a body the decoder rejects after it has stored one variable, one lists two variables.
\<close>

theorem GetVariables_outcomes_witness:
  "fst (GetVariables (demo_env_answering (Response 404 (Body ''{}'' None))) demo_client ''g/a'' []) =
     (None, Some ''project not found: g/a'') \<and>
   fst (GetVariables (demo_env_answering (Response 500 (Body ''oops'' None))) demo_client ''g/a'' []) =
     (None, Some ''failed to get variables: status code 500, response: oops'') \<and>
   fst (GetVariables (demo_env_answering (DoError ''timeout'')) demo_client ''g/a'' []) =
     (None, Some ''timeout'') \<and>
   fst (GetVariables demo_env_undecodable demo_client ''g/a'' []) = (None, Some ''unexpected EOF'') \<and>
   fst (GetVariables demo_env demo_client ''g/a'' []) = (Some [demo_var ''A'', demo_var ''B''], None)"
proof -
  have i: "Itoa 500 = ''500''"
    by (simp add: Itoa_def nat_digits.simps decimal_digit_def)
  have a: "http_Do (demo_env_answering x) t r = x" for x t r
    by (simp add: demo_env_answering_def)
  have u: "http_Do demo_env_undecodable [] (list_request demo_client ''g/a'') =
             Response 200 (Body ''[two variables]'' None)"
    "snd (json_Decode demo_env_undecodable b) = Some ''unexpected EOF''" for b
    by (simp_all add: demo_env_undecodable_def demo_env_def list_request_def)
  have d: "http_Do demo_env [] (list_request demo_client ''g/a'') =
             Response 200 (Body ''[two variables]'' None)"
    "json_Decode demo_env b = (Some [demo_var ''A'', demo_var ''B''], None)" for b
    by (simp_all add: demo_env_def list_request_def)
  show ?thesis
    using GetVariables_outcomes [of "demo_env_answering (Response 404 (Body ''{}'' None))" demo_client "''g/a''" "[]"]
      GetVariables_outcomes [of "demo_env_answering (Response 500 (Body ''oops'' None))" demo_client "''g/a''" "[]"]
      GetVariables_outcomes [of "demo_env_answering (DoError ''timeout'')" demo_client "''g/a''" "[]"]
      GetVariables_outcomes [of demo_env_undecodable demo_client "''g/a''" "[]"]
      GetVariables_outcomes [of demo_env demo_client "''g/a''" "[]"]
    by (simp add: demo_can_build i a u d)
qed

text \<open>
  C4. In a live run in which exactly one invocation of \<^verbatim>\<open>CreateVariable\<close> fails,
  the loop still invokes it once for each of the \<open>N\<close> fetched variables, the one
  failure is logged with the variable's key and the error, the final line reports
  \<open>N - 1\<close> of \<open>N\<close>, and the process exits with status 0.
\<close>

theorem single_failure_does_not_stop_run:
  assumes "required_flags_set f" and "\<not> dryRun f" and "listing e f = (vars, None)"
    and "length (failures (snd (main e f))) = 1"
  shows "fst (main e f) = 0 \<and>
         length (calls (snd (main e f))) = length (elems vars) \<and>
         (\<exists>v err. v \<in> set (elems vars) \<and>
            failures (snd (main e f)) = [(targetProject f, v, False, Some err)] \<and>
            error_logs (snd (main e f)) =
              [''Error transferring variable '' @ Key v @ '': '' @ err]) \<and>
         last (snd (main e f)) =
           LogPrint (''Transfer completed. Successfully transferred '' @
             Itoa (len vars - 1) @ ''/'' @ Itoa (len vars) @ '' variables'')"
proof -
  from live_run_trace [OF assms(1-3)] obtain rs t2 where rs: "length rs = length (elems vars)"
    and m: "main e f = (0, t2 @ [LogPrint (''Transfer completed. Successfully transferred '' @
               Itoa (int (length (filter (\<lambda>r. r = None) rs))) @ ''/'' @ Itoa (len vars) @ '' variables'')])"
    and c: "calls t2 = map2 (\<lambda>v r. (targetProject f, v, False, r)) (elems vars) rs"
    and l: "logs t2 = [''Fetching variables from source project: '' @ sourceProject f,
                      ''Starting transfer of '' @ Itoa (len vars) @ '' variables from '' @
                        sourceProject f @ '' to '' @ targetProject f] @
                     concat (map2 loop_logs (elems vars) rs)"
    by blast
  let ?cs = "map2 (\<lambda>v r. (targetProject f, v, False, r)) (elems vars) rs"
  have fl: "failures (snd (main e f)) = filter (\<lambda>c. call_result c \<noteq> None) ?cs"
    using m c by (simp add: failures_def)
  with assms(4) have "length (filter (\<lambda>c. call_result c \<noteq> None) ?cs) = 1"
    by simp
  from singleton_list [OF this] obtain x where x: "filter (\<lambda>c. call_result c \<noteq> None) ?cs = [x]"
    by blast
  then have "x \<in> set (filter (\<lambda>c. call_result c \<noteq> None) ?cs)"
    by simp
  then have "x \<in> set ?cs" and xr: "call_result x \<noteq> None"
    by simp_all
  from loop_calls_members [OF rs this(1)] obtain v r where v: "x = (targetProject f, v, False, r)"
    "v \<in> set (elems vars)" by blast
  with xr obtain err where err: "r = Some err" by auto
  have el: "error_logs (snd (main e f)) = map failure_log [x]"
    using m l loop_error_logs [OF rs, of "targetProject f" False] x
    by (simp add: error_logs_def)
  have "Suc (length (filter (\<lambda>r. r = None) rs)) = length (elems vars)"
    using loop_failures_count [OF rs, of "targetProject f" False] unfolding x by simp
  then have n: "int (length (filter (\<lambda>r. r = None) rs)) = len vars - 1"
    unfolding len_def by linarith
  show ?thesis
    using m c rs fl x v err el n by simp
qed

theorem single_failure_does_not_stop_run_witness:
  "fst (main demo_env (demo_flags False)) = 0 \<and>
   length (calls (snd (main demo_env (demo_flags False)))) =
     length (elems (Some [demo_var ''A'', demo_var ''B''])) \<and>
   (\<exists>v err. v \<in> set (elems (Some [demo_var ''A'', demo_var ''B''])) \<and>
      failures (snd (main demo_env (demo_flags False))) =
        [(targetProject (demo_flags False), v, False, Some err)] \<and>
      error_logs (snd (main demo_env (demo_flags False))) =
        [''Error transferring variable '' @ Key v @ '': '' @ err]) \<and>
   last (snd (main demo_env (demo_flags False))) =
     LogPrint (''Transfer completed. Successfully transferred '' @
       Itoa (len (Some [demo_var ''A'', demo_var ''B'']) - 1) @ ''/'' @
       Itoa (len (Some [demo_var ''A'', demo_var ''B''])) @ '' variables'')"
proof -
  have d: "\<not> dryRun (demo_flags False)"
    by (simp add: demo_flags_def)
  have one: "length (failures (snd (main demo_env (demo_flags False)))) = 1"
    by (simp add: failures_def demo_live_calls)
  from single_failure_does_not_stop_run [OF demo_required d demo_listing one]
  show ?thesis .
qed

text \<open>
  C9. In a live run, \<^verbatim>\<open>CreateVariable\<close> is invoked once for each fetched variable,
  in the order fetched, with the fetched record itself, the target path and
  \<^verbatim>\<open>dryRun = false\<close>; the requests it sends are the \<^verbatim>\<open>POST\<close>s whose bodies are
  \<^verbatim>\<open>json.Marshal\<close> of those same records (or none at all, when \<^verbatim>\<open>http.NewRequest\<close>
  rejects the target's URL).
\<close>

theorem live_run_transfers_records_verbatim:
  assumes "required_flags_set f" and "\<not> dryRun f" and "listing e f = (vars, None)"
  shows "map call_args (calls (snd (main e f))) =
           map (\<lambda>v. (targetProject f, v, False)) (elems vars) \<and>
         mutating_requests (snd (main e f)) =
           (if can_build e (client_of f) ''POST'' (targetProject f)
            then map (create_request (client_of f) (targetProject f)) (elems vars) else []) \<and>
         (\<forall>v. ReqBody (create_request (client_of f) (targetProject f) v) = Some (EnvVar_json v))"
proof -
  from live_run_trace [OF assms(1-3)] obtain rs t2 where rs: "length rs = length (elems vars)"
    and m: "main e f = (0, t2 @ [LogPrint (''Transfer completed. Successfully transferred '' @
               Itoa (int (length (filter (\<lambda>r. r = None) rs))) @ ''/'' @ Itoa (len vars) @ '' variables'')])"
    and c: "calls t2 = map2 (\<lambda>v r. (targetProject f, v, False, r)) (elems vars) rs"
    and q: "mutating_requests t2 =
             (if can_build e (client_of f) ''POST'' (targetProject f)
              then map (create_request (client_of f) (targetProject f)) (elems vars) else [])"
    by blast
  show ?thesis
    using m c q map2_args [OF rs, of "targetProject f" False]
    by (simp add: create_request_def)
qed

theorem live_run_transfers_records_verbatim_witness:
  "map call_args (calls (snd (main demo_env (demo_flags False)))) =
     [(''g/b'', demo_var ''A'', False), (''g/b'', demo_var ''B'', False)] \<and>
   map ReqBody (mutating_requests (snd (main demo_env (demo_flags False)))) =
     [Some (EnvVar_json (demo_var ''A'')), Some (EnvVar_json (demo_var ''B''))]"
proof -
  have d: "\<not> dryRun (demo_flags False)" "targetProject (demo_flags False) = ''g/b''"
    by (simp_all add: demo_flags_def)
  from live_run_transfers_records_verbatim [OF demo_required d(1) demo_listing]
  show ?thesis
    by (simp add: demo_can_build elems_def d(2))
qed

text \<open>
  C7. For every project path, decoding the escaped path gives the path back, and the
  path \<^verbatim>\<open>projects/<escaped>/variables\<close> has exactly three segments, of which the
  second decodes to the project path. \<^verbatim>\<open>GetVariables\<close> and \<^verbatim>\<open>CreateVariable\<close> (not
  in a dry run) each send exactly one request, to the URL made of the base URL,
  \<^verbatim>\<open>/api/v4/\<close> and that path; they send none only when \<^verbatim>\<open>http.NewRequest\<close>
  refuses to build the request.
\<close>

theorem project_path_escaping_roundtrip:
  "PathUnescape (PathEscape p) = Some p \<and>
   map PathUnescape (split_slash (''projects/'' @ PathEscape p @ ''/variables'')) =
     [Some ''projects'', Some p, Some ''variables''] \<and>
   (can_build e c ''GET'' p \<longrightarrow>
      map Method (issued t (snd (GetVariables e c p t))) = [''GET''] \<and>
      map URL (issued t (snd (GetVariables e c p t))) =
        [baseURL c @ ''/api/v4/'' @ ''projects/'' @ PathEscape p @ ''/variables'']) \<and>
   (\<not> can_build e c ''GET'' p \<longrightarrow> issued t (snd (GetVariables e c p t)) = []) \<and>
   (can_build e c ''POST'' p \<longrightarrow>
      map Method (issued t (snd (CreateVariable e c p v False t))) = [''POST''] \<and>
      map URL (issued t (snd (CreateVariable e c p v False t))) =
        [baseURL c @ ''/api/v4/'' @ ''projects/'' @ PathEscape p @ ''/variables'']) \<and>
   (\<not> can_build e c ''POST'' p \<longrightarrow> issued t (snd (CreateVariable e c p v False t)) = [])"
proof -
  have g: "issued t (snd (GetVariables e c p t)) =
      (if can_build e c ''GET'' p then [list_request c p] else [])"
    using GetVariables_trace [of e c p t] by (simp add: issued_def)
  obtain r t' where cv: "CreateVariable e c p v False t = (r, t')"
    by (cases "CreateVariable e c p v False t")
  have k: "issued t (snd (CreateVariable e c p v False t)) =
      (if can_build e c ''POST'' p then [create_request c p v] else [])"
    using CreateVariable_trace [OF cv] cv by (simp add: issued_def)
  have u: "URL (list_request c p) = baseURL c @ ''/api/v4/'' @ ''projects/'' @ PathEscape p @ ''/variables''"
    "URL (create_request c p v) = baseURL c @ ''/api/v4/'' @ ''projects/'' @ PathEscape p @ ''/variables''"
    "Method (list_request c p) = ''GET''" "Method (create_request c p v) = ''POST''"
    by (simp_all add: list_request_def create_request_def)
  show ?thesis
    unfolding g k using u variables_path_segments [of p]
    by (simp add: PathUnescape_PathEscape)
qed

theorem project_path_escaping_roundtrip_witness:
  "PathUnescape ''group%2Fsub%20group'' = Some ''group/sub group'' \<and>
   map PathUnescape (split_slash ''projects/group%2Fsub%20group/variables'') =
     [Some ''projects'', Some ''group/sub group'', Some ''variables''] \<and>
   map Method (issued [] (snd (GetVariables demo_env demo_client ''group/sub group'' []))) =
     [''GET''] \<and>
   map URL (issued [] (snd (GetVariables demo_env demo_client ''group/sub group'' []))) =
     [''https://gitlab.com/api/v4/projects/group%2Fsub%20group/variables''] \<and>
   map Method (issued [] (snd (CreateVariable demo_env demo_client ''group/sub group''
       (demo_var ''A'') False []))) = [''POST''] \<and>
   map URL (issued [] (snd (CreateVariable demo_env demo_client ''group/sub group''
       (demo_var ''A'') False []))) =
     [''https://gitlab.com/api/v4/projects/group%2Fsub%20group/variables'']"
proof -
  have e: "PathEscape ''group/sub group'' = ''group%2Fsub%20group''"
    by (simp add: shouldEscape_def isalnum_def between_def byte_def upperhex_def)
  have b: "baseURL demo_client = ''https://gitlab.com''"
    by (simp add: demo_client_def NewGitLabClient_def)
  note r = project_path_escaping_roundtrip
    [of "''group/sub group''" demo_env demo_client "[]" "demo_var ''A''"]
  from r [unfolded e b] show ?thesis
    by (simp add: demo_can_build)
qed

section \<open>Decoding what was encoded\<close>

lemma char_of_byte [simp]: "char_of (byte c) = c" by (simp add: byte_def)

lemma decode_ascii: "byte b < 0x80 \<Longrightarrow> DecodeRuneInString (b # s) = (byte b, 1)"
  by (simp add: DecodeRuneInString_def)

lemma decode_cases:
  assumes "\<not> byte b < 0x80"
  shows "DecodeRuneInString (b # s) = (RuneError, 1) \<or>
    (\<exists>b1 rest. s = b1 # rest \<and> DecodeRuneInString (b # s) = (byte b mod 32 * 64 + byte b1 mod 64, 2) \<and>
        0xC2 \<le> byte b \<and> byte b < 0xE0 \<and> 0x80 \<le> byte b1 \<and> byte b1 \<le> 0xBF) \<or>
    (\<exists>b1 b2 rest. s = b1 # b2 # rest \<and>
        DecodeRuneInString (b # s) = (byte b mod 16 * 4096 + byte b1 mod 64 * 64 + byte b2 mod 64, 3) \<and>
        0xE0 \<le> byte b \<and> byte b < 0xF0 \<and>
        (if byte b = 0xE0 then 0xA0 else 0x80) \<le> byte b1 \<and>
        byte b1 \<le> (if byte b = 0xED then 0x9F else 0xBF) \<and>
        0x80 \<le> byte b2 \<and> byte b2 \<le> 0xBF) \<or>
    (\<exists>b1 b2 b3 rest. s = b1 # b2 # b3 # rest \<and>
        DecodeRuneInString (b # s) =
          (byte b mod 8 * 262144 + byte b1 mod 64 * 4096 + byte b2 mod 64 * 64 + byte b3 mod 64, 4) \<and>
        0xF0 \<le> byte b \<and> byte b \<le> 0xF4 \<and>
        (if byte b = 0xF0 then 0x90 else 0x80) \<le> byte b1 \<and>
        byte b1 \<le> (if byte b = 0xF4 then 0x8F else 0xBF) \<and>
        0x80 \<le> byte b2 \<and> byte b2 \<le> 0xBF \<and> 0x80 \<le> byte b3 \<and> byte b3 \<le> 0xBF)"
proof (cases s)
  case Nil
  then show ?thesis using assms by (simp add: DecodeRuneInString_def Let_def)
next
  case s1: (Cons b1 r1)
  show ?thesis
  proof (cases r1)
    case Nil
    then show ?thesis using assms s1 by (simp add: DecodeRuneInString_def Let_def)
  next
    case s2: (Cons b2 r2)
    show ?thesis
    proof (cases r2)
      case Nil
      then show ?thesis using assms s1 s2 by (simp add: DecodeRuneInString_def Let_def)
    next
      case s3: (Cons b3 r3)
      then show ?thesis using assms s1 s2 by (simp add: DecodeRuneInString_def Let_def)
    qed
  qed
qed

lemma mod_decomp:
  fixes x :: nat
  assumes "m * k \<le> x" and "x < m * k + m"
  shows "x mod m = x - m * k"
proof -
  have "x = m * k + (x - m * k)" using assms by simp
  then have "x mod m = (x - m * k) mod m" by (metis mod_mult_self4)
  also have "\<dots> = x - m * k" using assms by simp
  finally show ?thesis .
qed

lemma divmod_step:
  fixes d :: nat
  assumes "d < m"
  shows "(k * m + d) div m = k" and "(k * m + d) mod m = d"
  using assms by simp_all

lemma cont_byte:
  fixes y :: nat
  assumes "0x80 \<le> y" "y \<le> 0xBF"
  obtains c where "y = 0x80 + c" "c < 64" "y mod 64 = c"
proof -
  have "y mod 64 = y - 0x80" using mod_decomp [of 64 2 y] assms by simp
  then show ?thesis using assms that [of "y - 0x80"] by simp
qed

lemma enc2:
  fixes x y :: nat
  assumes "0xC2 \<le> x" "x < 0xE0" "0x80 \<le> y" "y \<le> 0xBF"
  defines "r \<equiv> x mod 32 * 64 + y mod 64"
  shows "0x7F < r \<and> r \<le> 0x7FF \<and> 0xC0 + r div 64 = x \<and> 0x80 + r mod 64 = y"
proof -
  define a where "a = x - 0xC0"
  have x: "x = 0xC0 + a" "2 \<le> a" "a < 32" using assms(1,2) by (simp_all add: a_def)
  have hx: "x mod 32 = a" using mod_decomp [of 32 6 x] assms(1,2) by (simp add: a_def)
  from assms(3,4) obtain c where y: "y = 0x80 + c" "c < 64" "y mod 64 = c" by (rule cont_byte)
  have r: "r = a * 64 + c" by (simp add: r_def hx y(3))
  have "r div 64 = a" "r mod 64 = c" using y(2) by (simp_all add: r)
  then show ?thesis using x y r by simp
qed

lemma enc3:
  fixes x y z :: nat
  assumes "0xE0 \<le> x" "x < 0xF0" "0x80 \<le> y" "y \<le> 0xBF" "0x80 \<le> z" "z \<le> 0xBF"
    and "x = 0xE0 \<longrightarrow> 0xA0 \<le> y" and "x = 0xED \<longrightarrow> y \<le> 0x9F"
  defines "r \<equiv> x mod 16 * 4096 + y mod 64 * 64 + z mod 64"
  shows "0x7FF < r \<and> r \<le> 0xFFFF \<and> \<not> (0xD800 \<le> r \<and> r \<le> 0xDFFF) \<and>
         0xE0 + r div 4096 = x \<and> 0x80 + r div 64 mod 64 = y \<and> 0x80 + r mod 64 = z"
proof -
  define a where "a = x - 0xE0"
  have x: "x = 0xE0 + a" "a < 16" using assms(1,2) by (simp_all add: a_def)
  have hx: "x mod 16 = a" using mod_decomp [of 16 14 x] assms(1,2) by (simp add: a_def)
  from assms(3,4) obtain c where y: "y = 0x80 + c" "c < 64" "y mod 64 = c" by (rule cont_byte)
  from assms(5,6) obtain d where z: "z = 0x80 + d" "d < 64" "z mod 64 = d" by (rule cont_byte)
  have r: "r = a * 4096 + (c * 64 + d)" by (simp add: r_def hx y(3) z(3))
  have lt: "c * 64 + d < 4096" using y(2) z(2) by simp
  have d1: "r div 4096 = a" using lt by (simp add: r)
  have r': "r = (a * 64 + c) * 64 + d" by (simp add: r)
  have "r div 64 = a * 64 + c" unfolding r' using z(2) by (rule divmod_step)
  then have d2: "r div 64 mod 64 = c"
    using divmod_step(2) [OF y(2), of a] by (simp only:)
  have m: "r mod 64 = d" unfolding r' using z(2) by (rule divmod_step)
  have lo: "0x7FF < r"
  proof (cases "a = 0")
    case True
    with assms(7) x y have "32 \<le> c" by simp
    then show ?thesis by (simp add: r)
  next
    case False
    then show ?thesis by (simp add: r)
  qed
  have hi: "r \<le> 0xFFFF" using x(2) lt by (simp add: r)
  have sur: "\<not> (0xD800 \<le> r \<and> r \<le> 0xDFFF)"
  proof (cases "a = 13")
    case True
    with assms(8) x y have "c < 32" by simp
    then show ?thesis using True z(2) by (simp add: r)
  next
    case False
    then have "a < 13 \<or> 13 < a" by arith
    then show ?thesis using lt by (auto simp: r)
  qed
  show ?thesis using d1 d2 m lo hi sur x y z by simp
qed

lemma enc4:
  fixes x y z w :: nat
  assumes "0xF0 \<le> x" "x \<le> 0xF4" "0x80 \<le> y" "y \<le> 0xBF" "0x80 \<le> z" "z \<le> 0xBF"
    "0x80 \<le> w" "w \<le> 0xBF"
    and "x = 0xF0 \<longrightarrow> 0x90 \<le> y" and "x = 0xF4 \<longrightarrow> y \<le> 0x8F"
  defines "r \<equiv> x mod 8 * 262144 + y mod 64 * 4096 + z mod 64 * 64 + w mod 64"
  shows "0xFFFF < r \<and> r \<le> 0x10FFFF \<and>
         0xF0 + r div 262144 = x \<and> 0x80 + r div 4096 mod 64 = y \<and>
         0x80 + r div 64 mod 64 = z \<and> 0x80 + r mod 64 = w"
proof -
  define a where "a = x - 0xF0"
  have x: "x = 0xF0 + a" "a \<le> 4" using assms(1,2) by (simp_all add: a_def)
  have hx: "x mod 8 = a" using mod_decomp [of 8 30 x] assms(1,2) by (simp add: a_def)
  from assms(3,4) obtain c where y: "y = 0x80 + c" "c < 64" "y mod 64 = c" by (rule cont_byte)
  from assms(5,6) obtain d where z: "z = 0x80 + d" "d < 64" "z mod 64 = d" by (rule cont_byte)
  from assms(7,8) obtain e where w: "w = 0x80 + e" "e < 64" "w mod 64 = e" by (rule cont_byte)
  have r: "r = a * 262144 + (c * 4096 + (d * 64 + e))" by (simp add: r_def hx y(3) z(3) w(3))
  have lt1: "d * 64 + e < 4096" using z(2) w(2) by simp
  have lt2: "c * 4096 + (d * 64 + e) < 262144" using y(2) lt1 by simp
  have d1: "r div 262144 = a" using lt2 by (simp add: r)
  have r': "r = (a * 64 + c) * 4096 + (d * 64 + e)" by (simp add: r)
  have r'': "r = ((a * 64 + c) * 64 + d) * 64 + e" by (simp add: r)
  have "r div 4096 = a * 64 + c" unfolding r' using lt1 by (rule divmod_step)
  then have d2: "r div 4096 mod 64 = c"
    using divmod_step(2) [OF y(2), of a] by (simp only:)
  have "r div 64 = (a * 64 + c) * 64 + d" unfolding r'' using w(2) by (rule divmod_step)
  then have d3: "r div 64 mod 64 = d"
    using divmod_step(2) [OF z(2), of "a * 64 + c"] by (simp only:)
  have m: "r mod 64 = e" unfolding r'' using w(2) by (rule divmod_step)
  have lo: "0xFFFF < r"
  proof (cases "a = 0")
    case True
    with assms(9) x y have "16 \<le> c" by simp
    then show ?thesis by (simp add: r)
  next
    case False
    then show ?thesis by (simp add: r)
  qed
  have hi: "r \<le> 0x10FFFF"
  proof (cases "a = 4")
    case True
    with assms(10) x y have "c < 16" by simp
    then show ?thesis using True lt1 by (simp add: r)
  next
    case False
    then have "a \<le> 3" using x(2) by simp
    then show ?thesis using lt2 by (simp add: r)
  qed
  show ?thesis using d1 d2 d3 m lo hi x y z w by simp
qed

lemma decode2:
  "0xC2 \<le> byte b \<Longrightarrow> byte b < 0xE0 \<Longrightarrow> 0x80 \<le> byte b1 \<Longrightarrow> byte b1 \<le> 0xBF \<Longrightarrow>
   DecodeRuneInString (b # b1 # rest) = (byte b mod 32 * 64 + byte b1 mod 64, 2)"
  by (simp add: DecodeRuneInString_def Let_def)

lemma decode3:
  "0xE0 \<le> byte b \<Longrightarrow> byte b < 0xF0 \<Longrightarrow>
   (if byte b = 0xE0 then 0xA0 else 0x80) \<le> byte b1 \<Longrightarrow>
   byte b1 \<le> (if byte b = 0xED then 0x9F else 0xBF) \<Longrightarrow>
   0x80 \<le> byte b2 \<Longrightarrow> byte b2 \<le> 0xBF \<Longrightarrow>
   DecodeRuneInString (b # b1 # b2 # rest) =
     (byte b mod 16 * 4096 + byte b1 mod 64 * 64 + byte b2 mod 64, 3)"
  by (auto simp: DecodeRuneInString_def Let_def split: if_splits)

lemma decode4:
  "0xF0 \<le> byte b \<Longrightarrow> byte b \<le> 0xF4 \<Longrightarrow>
   (if byte b = 0xF0 then 0x90 else 0x80) \<le> byte b1 \<Longrightarrow>
   byte b1 \<le> (if byte b = 0xF4 then 0x8F else 0xBF) \<Longrightarrow>
   0x80 \<le> byte b2 \<Longrightarrow> byte b2 \<le> 0xBF \<Longrightarrow> 0x80 \<le> byte b3 \<Longrightarrow> byte b3 \<le> 0xBF \<Longrightarrow>
   DecodeRuneInString (b # b1 # b2 # b3 # rest) =
     (byte b mod 8 * 262144 + byte b1 mod 64 * 4096 + byte b2 mod 64 * 64 + byte b3 mod 64, 4)"
  by (auto simp: DecodeRuneInString_def Let_def split: if_splits)

lemma EncodeRune_RuneError: "EncodeRune RuneError = [CHR 0xEF, CHR 0xBF, CHR 0xBD]"
  by (simp add: EncodeRune_def RuneError_def char_of_def bit_Suc_0_iff)

lemma EncodeRune_ascii: "byte b < 0x80 \<Longrightarrow> EncodeRune (byte b) = [b]"
  by (simp add: EncodeRune_def)

lemma decode_encode:
  assumes "\<not> byte b < 0x80" and "DecodeRuneInString (b # s) = (c, n)"
    and "\<not> (c = RuneError \<and> n = 1)"
  shows "EncodeRune c = take n (b # s) \<and> n \<le> length (b # s) \<and> 0x80 \<le> c \<and>
         (\<forall>rest. DecodeRuneInString (take n (b # s) @ rest) = (c, n))"
proof -
  from decode_cases [OF assms(1), of s] assms(2,3)
  consider
    (two) b1 rest where "s = b1 # rest" "c = byte b mod 32 * 64 + byte b1 mod 64" "n = 2"
      "0xC2 \<le> byte b" "byte b < 0xE0" "0x80 \<le> byte b1" "byte b1 \<le> 0xBF"
  | (three) b1 b2 rest where "s = b1 # b2 # rest"
      "c = byte b mod 16 * 4096 + byte b1 mod 64 * 64 + byte b2 mod 64" "n = 3"
      "0xE0 \<le> byte b" "byte b < 0xF0"
      "(if byte b = 0xE0 then 0xA0 else 0x80) \<le> byte b1"
      "byte b1 \<le> (if byte b = 0xED then 0x9F else 0xBF)"
      "0x80 \<le> byte b2" "byte b2 \<le> 0xBF"
  | (four) b1 b2 b3 rest where "s = b1 # b2 # b3 # rest"
      "c = byte b mod 8 * 262144 + byte b1 mod 64 * 4096 + byte b2 mod 64 * 64 + byte b3 mod 64" "n = 4"
      "0xF0 \<le> byte b" "byte b \<le> 0xF4"
      "(if byte b = 0xF0 then 0x90 else 0x80) \<le> byte b1"
      "byte b1 \<le> (if byte b = 0xF4 then 0x8F else 0xBF)"
      "0x80 \<le> byte b2" "byte b2 \<le> 0xBF" "0x80 \<le> byte b3" "byte b3 \<le> 0xBF"
    by auto
  then show ?thesis
  proof cases
    case two
    from enc2 [OF two(4-7)] two(2)
    have e: "0x7F < c" "c \<le> 0x7FF" "0xC0 + c div 64 = byte b" "0x80 + c mod 64 = byte b1"
      by simp_all
    have "EncodeRune c = [b, b1]"
      using e by (simp add: EncodeRune_def)
    then show ?thesis
      using two e(1) decode2 [OF two(4-7)] by simp
  next
    case three
    have y: "0x80 \<le> byte b1" "byte b1 \<le> 0xBF" "byte b = 0xE0 \<longrightarrow> 0xA0 \<le> byte b1"
      "byte b = 0xED \<longrightarrow> byte b1 \<le> 0x9F"
      using three(6,7) by (auto split: if_splits)
    from enc3 [OF three(4,5) y(1,2) three(8,9) y(3,4)] three(2)
    have e: "0x7FF < c" "c \<le> 0xFFFF" "\<not> (0xD800 \<le> c \<and> c \<le> 0xDFFF)"
      "0xE0 + c div 4096 = byte b" "0x80 + c div 64 mod 64 = byte b1" "0x80 + c mod 64 = byte b2"
      by simp_all
    have "EncodeRune c = [b, b1, b2]"
      using e by (auto simp: EncodeRune_def)
    then show ?thesis
      using three e(1) decode3 [OF three(4-9)] by simp
  next
    case four
    have y: "0x80 \<le> byte b1" "byte b1 \<le> 0xBF" "byte b = 0xF0 \<longrightarrow> 0x90 \<le> byte b1"
      "byte b = 0xF4 \<longrightarrow> byte b1 \<le> 0x8F"
      using four(6,7) by (auto split: if_splits)
    from enc4 [OF four(4,5) y(1,2) four(8-11) y(3,4)] four(2)
    have e: "0xFFFF < c" "c \<le> 0x10FFFF"
      "0xF0 + c div 262144 = byte b" "0x80 + c div 4096 mod 64 = byte b1"
      "0x80 + c div 64 mod 64 = byte b2" "0x80 + c mod 64 = byte b3"
      by simp_all
    have "EncodeRune c = [b, b1, b2, b3]"
      using e by (simp add: EncodeRune_def)
    then show ?thesis
      using four e(1) decode4 [OF four(4-11)] by simp
  qed
qed

lemma lowerhex_cases:
  "n < 16 \<Longrightarrow> ishex (lowerhex n) \<and> unhex (lowerhex n) = n"
  by (drule below_16_cases, elim disjE)
     (simp_all add: lowerhex_def ishex_def unhex_def byte_def between_def)

lemma append_single [simp]: "(@) [x] = (#) x"
  by (rule ext) simp

lemma map_option_append:
  "map_option ((@) xs) (map_option ((@) ys) z) = map_option ((@) (xs @ ys)) z"
  by (cases z) simp_all

lemma coerce_ascii: "byte b < 0x80 \<Longrightarrow> coerce_utf8 (b # s) = b # coerce_utf8 s"
  by (simp add: coerce_utf8.simps(2) decode_ascii EncodeRune_ascii)

lemma unquote_plain:
  "byte b < 0x80 \<Longrightarrow> htmlSafe b \<Longrightarrow> unquote (b # s) = map_option ((#) b) (unquote s)"
  by (auto simp: unquote.simps(2) htmlSafe_def)

lemma getu4_00:
  assumes "byte b < 0x80"
  shows "getu4 (CHR 0x5C # CHR ''u'' # CHR ''0'' # CHR ''0'' # lowerhex (byte b div 16) #
           lowerhex (byte b mod 16) # rest) = Some (byte b)"
proof -
  have d: "byte b div 16 < 16" using assms by simp
  have m: "byte b mod 16 < 16" by simp
  have z: "ishex CHR ''0''" "unhex CHR ''0'' = 0"
    by (simp_all add: ishex_def unhex_def between_def byte_def)
  show ?thesis
    using lowerhex_cases [OF d] lowerhex_cases [OF m] z by (simp add: getu4_def)
qed

lemma unquote_escape_ascii:
  assumes "byte b < 0x80" and "\<not> htmlSafe b"
  shows "unquote (escape_ascii b @ rest) = map_option ((#) b) (unquote rest)"
proof -
  consider (q) "b = CHR 0x5C \<or> b = CHR 0x22"
    | (s) "b = CHR 0x08 \<or> b = CHR 0x0C \<or> b = CHR 0x0A \<or> b = CHR 0x0D \<or> b = CHR 0x09"
    | (u) "\<not> (b = CHR 0x5C \<or> b = CHR 0x22)"
        "\<not> (b = CHR 0x08 \<or> b = CHR 0x0C \<or> b = CHR 0x0A \<or> b = CHR 0x0D \<or> b = CHR 0x09)"
    by blast
  then show ?thesis
  proof cases
    case q
    then show ?thesis by (auto simp: escape_ascii_def unquote.simps(2))
  next
    case s
    then show ?thesis by (auto simp: escape_ascii_def unquote.simps(2))
  next
    case u
    then have e: "escape_ascii b = [CHR 0x5C, CHR ''u'', CHR ''0'', CHR ''0'',
            lowerhex (byte b div 16), lowerhex (byte b mod 16)]"
      by (simp add: escape_ascii_def)
    have "\<not> IsSurrogate (byte b)" using assms(1) by (simp add: IsSurrogate_def)
    then show ?thesis
      using getu4_00 [OF assms(1), of rest] assms(1)
      by (simp add: e unquote.simps(2) EncodeRune_ascii)
  qed
qed

lemma getu4_fffd: "getu4 (CHR 0x5C # CHR ''u'' # CHR ''f'' # CHR ''f'' # CHR ''f'' # CHR ''d'' # rest) = Some RuneError"
  by (simp add: getu4_def ishex_def unhex_def between_def byte_def RuneError_def)

lemma getu4_202x:
  assumes "c = 0x2028 \<or> c = 0x2029"
  shows "getu4 (CHR 0x5C # CHR ''u'' # CHR ''2'' # CHR ''0'' # CHR ''2'' # lowerhex (c mod 16) # rest) = Some c"
  using assms
  by (auto simp: getu4_def ishex_def unhex_def between_def byte_def lowerhex_def)

lemma unquote_string_body: "unquote (string_body s) = Some (coerce_utf8 s)"
proof (induction s rule: string_body.induct)
  case 1
  show ?case by simp
next
  case (2 b s)
  show ?case
  proof (cases "byte b < 0x80")
    case True
    then have IH: "unquote (string_body s) = Some (coerce_utf8 s)"
      using 2 by simp
    show ?thesis
    proof (cases "htmlSafe b")
      case safe: True
      then show ?thesis
        using True IH by (simp add: string_body.simps(2) unquote_plain coerce_ascii)
    next
      case False
      then show ?thesis
        using True IH by (simp add: string_body.simps(2) unquote_escape_ascii coerce_ascii)
    qed
  next
    case False
    obtain c n where d: "DecodeRuneInString (b # s) = (c, n)"
      by (cases "DecodeRuneInString (b # s)")
    show ?thesis
    proof (cases "c = RuneError \<and> n = 1")
      case True
      then have IH: "unquote (string_body s) = Some (coerce_utf8 s)"
        using 2(2) [OF False d [symmetric]] by simp
      have "\<not> IsSurrogate RuneError" by (simp add: IsSurrogate_def RuneError_def)
      then show ?thesis
        using False d True IH getu4_fffd
        by (simp add: string_body.simps(2) coerce_utf8.simps(2) unquote.simps(2))
    next
      case valid: False
      from decode_encode [OF False d valid]
      have e: "EncodeRune c = take n (b # s)" "n \<le> length (b # s)" "0x80 \<le> c"
        and p: "\<And>rest. DecodeRuneInString (take n (b # s) @ rest) = (c, n)"
        by simp_all
      have n0: "0 < n" using DecodeRuneInString_size [of b s] d by simp
      show ?thesis
      proof (cases "c = 0x2028 \<or> c = 0x2029")
        case True
        then have IH: "unquote (string_body (drop n (b # s))) = Some (coerce_utf8 (drop n (b # s)))"
          using 2(3) [OF False d [symmetric] valid] by simp
        have "\<not> IsSurrogate c" "c \<noteq> RuneError"
          using True by (auto simp: IsSurrogate_def RuneError_def)
        then show ?thesis
          using False d True IH getu4_202x [OF True]
          by (simp add: string_body.simps(2) coerce_utf8.simps(2) unquote.simps(2))
      next
        case other: False
        then have IH: "unquote (string_body (drop n (b # s))) = Some (coerce_utf8 (drop n (b # s)))"
          using 2(4) [OF False d [symmetric] valid] by simp
        have t: "take n (b # s) = b # take (n - 1) s"
          using n0 by (cases n) simp_all
        have dr: "drop n (take n (b # s) @ rest) = rest" for rest
          using e(2) by simp
        have nb: "b \<noteq> CHR 0x5C" "b \<noteq> CHR 0x22" "\<not> byte b < 0x20"
          using False by (auto simp: byte_def)
        have "unquote (take n (b # s) @ string_body (drop n (b # s))) =
              map_option ((@) (EncodeRune c)) (unquote (string_body (drop n (b # s))))"
          using p [of "string_body (drop n (b # s))"] dr [of "string_body (drop n (b # s))"] False nb
          unfolding t by (simp add: unquote.simps(2))
        then show ?thesis
          using False d valid other IH
          by (auto simp: string_body.simps(2) coerce_utf8.simps(2))
      qed
    qed
  qed
qed

lemma coerce_valid: "ValidString s \<Longrightarrow> coerce_utf8 s = s"
proof (induction s rule: ValidString.induct)
  case 1
  show ?case by simp
next
  case (2 b s)
  obtain c n where d: "DecodeRuneInString (b # s) = (c, n)"
    by (cases "DecodeRuneInString (b # s)")
  from 2(2) d have v: "\<not> (c = RuneError \<and> n = 1)" and r: "ValidString (drop n (b # s))"
    by (simp_all add: ValidString.simps(2))
  from 2(1) [OF d [symmetric] r] have IH: "coerce_utf8 (drop n (b # s)) = drop n (b # s)" .
  show ?case
  proof (cases "byte b < 0x80")
    case True
    then show ?thesis using d IH decode_ascii [OF True, of s]
      by (auto simp: coerce_ascii)
  next
    case False
    from decode_encode [OF False d v] have "EncodeRune c = take n (b # s)" by simp
    then show ?thesis using d IH by (simp add: coerce_utf8.simps(2))
  qed
qed

lemma prepend_prepend: "prepend xs (prepend ys r) = prepend (xs @ ys) r"
  by (cases r) (auto simp: prepend_def)

lemma prepend_Some: "prepend xs (Some (lit, rest)) = Some (xs @ lit, rest)"
  by (simp add: prepend_def)

lemma scan_InString_plain:
  "c \<noteq> CHR 0x22 \<Longrightarrow> c \<noteq> CHR 0x5C \<Longrightarrow> \<not> byte c < 0x20 \<Longrightarrow>
   scan_string_from InString (c # s) = prepend [c] (scan_string_from InString s)"
  by (simp add: prepend_def)

lemma scan_InString_high:
  "\<forall>x \<in> set xs. 0x80 \<le> byte x \<Longrightarrow>
   scan_string_from InString (xs @ s) = prepend xs (scan_string_from InString s)"
proof (induction xs)
  case Nil
  show ?case by (cases "scan_string_from InString s") (auto simp: prepend_def)
next
  case (Cons x xs)
  then have "x \<noteq> CHR 0x22" "x \<noteq> CHR 0x5C" "\<not> byte x < 0x20"
    by (auto simp: byte_def)
  then show ?case using Cons
    by (cases "scan_string_from InString s") (auto simp: prepend_def)
qed

lemma scan_escape_u:
  "ishex h1 \<Longrightarrow> ishex h2 \<Longrightarrow> ishex h3 \<Longrightarrow> ishex h4 \<Longrightarrow>
   scan_string_from InString (CHR 0x5C # CHR ''u'' # h1 # h2 # h3 # h4 # s) =
     prepend [CHR 0x5C, CHR ''u'', h1, h2, h3, h4] (scan_string_from InString s)"
  by (cases "scan_string_from InString s") (auto simp: prepend_def)

lemma ishex_digits: "ishex CHR ''0''" "ishex CHR ''2''" "ishex CHR ''f''" "ishex CHR ''d''"
  by (simp_all add: ishex_def between_def byte_def)

lemma scan_escape_ascii:
  assumes "byte b < 0x80" and "\<not> htmlSafe b"
  shows "scan_string_from InString (escape_ascii b @ s) =
           prepend (escape_ascii b) (scan_string_from InString s)"
proof -
  consider (q) "b = CHR 0x5C \<or> b = CHR 0x22"
    | (s) "b = CHR 0x08 \<or> b = CHR 0x0C \<or> b = CHR 0x0A \<or> b = CHR 0x0D \<or> b = CHR 0x09"
    | (u) "\<not> (b = CHR 0x5C \<or> b = CHR 0x22)"
        "\<not> (b = CHR 0x08 \<or> b = CHR 0x0C \<or> b = CHR 0x0A \<or> b = CHR 0x0D \<or> b = CHR 0x09)"
    by blast
  then show ?thesis
  proof cases
    case q
    then show ?thesis
      by (cases "scan_string_from InString s") (auto simp: escape_ascii_def prepend_def)
  next
    case s
    then show ?thesis
      by (cases "scan_string_from InString s") (auto simp: escape_ascii_def prepend_def)
  next
    case u
    then have e: "escape_ascii b = [CHR 0x5C, CHR ''u'', CHR ''0'', CHR ''0'',
            lowerhex (byte b div 16), lowerhex (byte b mod 16)]"
      by (simp add: escape_ascii_def)
    have d: "byte b div 16 < 16" using assms(1) by simp
    have m: "byte b mod 16 < 16" by simp
    show ?thesis
      unfolding e using lowerhex_cases [OF d] lowerhex_cases [OF m]
      by (cases "scan_string_from InString s") (auto simp: ishex_digits prepend_def)
  qed
qed

lemma decode_bytes_high:
  assumes "\<not> byte b < 0x80" and "DecodeRuneInString (b # s) = (c, n)"
    and "\<not> (c = RuneError \<and> n = 1)"
  shows "\<forall>x \<in> set (take n (b # s)). 0x80 \<le> byte x"
  using decode_cases [OF assms(1), of s] assms
  by (auto split: if_splits)

lemma scan_string_body:
  "scan_string_from InString (string_body x @ CHR 0x22 # rest) = Some (string_body x, rest)"
proof (induction x rule: string_body.induct)
  case 1
  show ?case by simp
next
  case (2 b s)
  show ?case
  proof (cases "byte b < 0x80")
    case True
    then have IH: "scan_string_from InString (string_body s @ CHR 0x22 # rest) = Some (string_body s, rest)"
      using 2 by simp
    show ?thesis
    proof (cases "htmlSafe b")
      case safe: True
      then have "b \<noteq> CHR 0x22" "b \<noteq> CHR 0x5C" "\<not> byte b < 0x20"
        by (auto simp: htmlSafe_def)
      then show ?thesis
        using True safe IH by (simp add: string_body.simps(2) scan_InString_plain prepend_Some)
    next
      case False
      then show ?thesis
        using True IH by (simp add: string_body.simps(2) scan_escape_ascii prepend_Some)
    qed
  next
    case False
    obtain c n where d: "DecodeRuneInString (b # s) = (c, n)"
      by (cases "DecodeRuneInString (b # s)")
    show ?thesis
    proof (cases "c = RuneError \<and> n = 1")
      case True
      then have IH: "scan_string_from InString (string_body s @ CHR 0x22 # rest) = Some (string_body s, rest)"
        using 2(2) [OF False d [symmetric]] by simp
      show ?thesis
        using False d True IH
        by (simp add: string_body.simps(2) scan_escape_u ishex_digits prepend_Some)
    next
      case valid: False
      show ?thesis
      proof (cases "c = 0x2028 \<or> c = 0x2029")
        case True
        then have IH: "scan_string_from InString (string_body (drop n (b # s)) @ CHR 0x22 # rest) =
            Some (string_body (drop n (b # s)), rest)"
          using 2(3) [OF False d [symmetric] valid] by simp
        have h: "ishex (lowerhex (c mod 16))"
          using True by (auto simp: lowerhex_def ishex_def between_def byte_def)
        have "c \<noteq> RuneError" using True by (auto simp: RuneError_def)
        then show ?thesis
          using False d True IH h
          by (simp add: string_body.simps(2) scan_escape_u ishex_digits prepend_Some)
      next
        case other: False
        then have IH: "scan_string_from InString (string_body (drop n (b # s)) @ CHR 0x22 # rest) =
            Some (string_body (drop n (b # s)), rest)"
          using 2(4) [OF False d [symmetric] valid] by simp
        have "scan_string_from InString (take n (b # s) @ string_body (drop n (b # s)) @ CHR 0x22 # rest) =
            Some (take n (b # s) @ string_body (drop n (b # s)), rest)"
          using scan_InString_high [OF decode_bytes_high [OF False d valid]] IH
          by (simp add: prepend_Some)
        then show ?thesis
          using False d valid other
          by (auto simp: string_body.simps(2))
      qed
    qed
  qed
qed

lemma lex_string:
  "lex (CHR 0x22 # string_body x @ CHR 0x22 # rest) =
     map_option ((#) (TString (string_body x))) (lex rest)"
  by (simp add: lex.simps(2) isSpace_def scan_string_def scan_string_body)

lemma lex_appendString:
  "lex (appendString x @ rest) = map_option ((#) (TString (string_body x))) (lex rest)"
  using lex_string [of x rest] by (simp add: appendString_def)

lemma lex_appendBool:
  "lex (appendBool b @ rest) = map_option ((#) (if b then TTrue else TFalse)) (lex rest)"
  by (simp add: appendBool_def lex.simps(2) isSpace_def isDigit_def between_def byte_def)

lemma lex_punct:
  "lex (CHR ''{'' # rest) = map_option ((#) LBrace) (lex rest)"
  "lex (CHR ''}'' # rest) = map_option ((#) RBrace) (lex rest)"
  "lex (CHR '':'' # rest) = map_option ((#) Colon) (lex rest)"
  "lex (CHR '','' # rest) = map_option ((#) Comma) (lex rest)"
  by (simp_all add: lex.simps(2) isSpace_def)

lemma lex_name:
  "\<forall>c \<in> set n. between CHR ''a'' CHR ''z'' c \<or> c = CHR ''_'' \<Longrightarrow>
   scan_string_from InString (n @ CHR 0x22 # rest) = Some (n, rest)"
proof (induction n)
  case Nil
  show ?case by simp
next
  case (Cons c n)
  then have "c \<noteq> CHR 0x22" "c \<noteq> CHR 0x5C" "\<not> byte c < 0x20"
    by (auto simp: between_def byte_def)
  then show ?case using Cons by simp
qed

lemma lex_key:
  "\<forall>c \<in> set n. between CHR ''a'' CHR ''z'' c \<or> c = CHR ''_'' \<Longrightarrow>
   lex (CHR 0x22 # n @ CHR 0x22 # CHR '':'' # rest) =
     map_option (\<lambda>ts. TString n # Colon # ts) (lex rest)"
  by (cases "lex rest") (simp_all add: lex.simps(2) [of "CHR 0x22"] isSpace_def scan_string_def lex_name lex_punct)

lemma names_plain:
  "\<forall>c \<in> set ''variable_type''. between CHR ''a'' CHR ''z'' c \<or> c = CHR ''_''"
  "\<forall>c \<in> set ''key''. between CHR ''a'' CHR ''z'' c \<or> c = CHR ''_''"
  "\<forall>c \<in> set ''value''. between CHR ''a'' CHR ''z'' c \<or> c = CHR ''_''"
  "\<forall>c \<in> set ''protected''. between CHR ''a'' CHR ''z'' c \<or> c = CHR ''_''"
  "\<forall>c \<in> set ''masked''. between CHR ''a'' CHR ''z'' c \<or> c = CHR ''_''"
  "\<forall>c \<in> set ''environment_scope''. between CHR ''a'' CHR ''z'' c \<or> c = CHR ''_''"
  by (simp_all add: between_def byte_def)

lemma lex_EnvVar_json: "lex (EnvVar_json v) = Some (EnvVar_tokens v)"
proof -
  have k: "lex (CHR 0x22 # n @ CHR 0x22 # CHR '':'' # rest) =
       map_option (\<lambda>ts. TString n # Colon # ts) (lex rest)"
    if "n \<in> {''variable_type'', ''key'', ''value'', ''protected'', ''masked'', ''environment_scope''}"
    for n rest
    using that names_plain by (auto intro!: lex_key)
  have 6: "lex (''\"environment_scope\":'' @ appendString (EnvironmentScope v) @ ''}'') =
      Some [TString ''environment_scope'', Colon, TString (string_body (EnvironmentScope v)), RBrace]"
    using k [of "''environment_scope''"] by (simp add: lex_appendString lex_punct)
  have 5: "lex (''\"masked\":'' @ appendBool (Masked v) @ '','' @ r) =
      map_option (\<lambda>ts. TString ''masked'' # Colon # (if Masked v then TTrue else TFalse) # Comma # ts) (lex r)" for r
    using k [of "''masked''"] by (cases "lex r") (simp_all add: lex_appendBool lex_punct)
  have 4: "lex (''\"protected\":'' @ appendBool (Protected v) @ '','' @ r) =
      map_option (\<lambda>ts. TString ''protected'' # Colon # (if Protected v then TTrue else TFalse) # Comma # ts) (lex r)" for r
    using k [of "''protected''"] by (cases "lex r") (simp_all add: lex_appendBool lex_punct)
  have 3: "lex (''\"value\":'' @ appendString (Value v) @ '','' @ r) =
      map_option (\<lambda>ts. TString ''value'' # Colon # TString (string_body (Value v)) # Comma # ts) (lex r)" for r
    using k [of "''value''"] by (cases "lex r") (simp_all add: lex_appendString lex_punct)
  have 2: "lex (''\"key\":'' @ appendString (Key v) @ '','' @ r) =
      map_option (\<lambda>ts. TString ''key'' # Colon # TString (string_body (Key v)) # Comma # ts) (lex r)" for r
    using k [of "''key''"] by (cases "lex r") (simp_all add: lex_appendString lex_punct)
  have 1: "lex (''{\"variable_type\":'' @ appendString (VariableType v) @ '','' @ r) =
      map_option (\<lambda>ts. LBrace # TString ''variable_type'' # Colon # TString (string_body (VariableType v)) # Comma # ts) (lex r)" for r
    using k [of "''variable_type''"] by (cases "lex r") (simp_all add: lex_appendString lex_punct)
  have "EnvVar_json v =
      ''{\"variable_type\":'' @ appendString (VariableType v) @ '','' @
      (''\"key\":'' @ appendString (Key v) @ '','' @
      (''\"value\":'' @ appendString (Value v) @ '','' @
      (''\"protected\":'' @ appendBool (Protected v) @ '','' @
      (''\"masked\":'' @ appendBool (Masked v) @ '','' @
      (''\"environment_scope\":'' @ appendString (EnvironmentScope v) @ ''}'')))))"
    by (simp add: EnvVar_json_def)
  then show ?thesis
    by (simp only: 1 2 3 4 5 6 EnvVar_tokens_def option.map)
qed

lemma parse_EnvVar_json: "parse (EnvVar_json v) = Some (JObject (EnvVar_members v))"
  by (simp add: parse_def lex_EnvVar_json EnvVar_tokens_def EnvVar_members_def maxNestingDepth_def)

lemma unquote_name:
  "\<forall>c \<in> set n. between CHR ''a'' CHR ''z'' c \<or> c = CHR ''_'' \<Longrightarrow> unquote n = Some n"
proof (induction n)
  case Nil
  show ?case by simp
next
  case (Cons c n)
  then have "c \<noteq> CHR 0x22" "c \<noteq> CHR 0x5C" "\<not> byte c < 0x20" "byte c < 0x80"
    by (auto simp: between_def byte_def)
  then show ?case using Cons by (simp add: unquote.simps(2))
qed

lemma store_member_string:
  assumes "\<forall>c \<in> set n. between CHR ''a'' CHR ''z'' c \<or> c = CHR ''_''" and "n \<in> set field_names"
  shows "store_member (v, None) (n, j) = (case store_field n j v of (v', err) \<Rightarrow> (v', err))"
  using assms by (simp add: unquote_name find_field_def saveError_def)

lemma store_EnvVar_members:
  "store_value (JObject (EnvVar_members v)) v0 = (coerced v, None)"
proof -
  have f: "''variable_type'' \<in> set field_names" "''key'' \<in> set field_names"
    "''value'' \<in> set field_names" "''protected'' \<in> set field_names"
    "''masked'' \<in> set field_names" "''environment_scope'' \<in> set field_names"
    by (simp_all add: field_names_def)
  note m = store_member_string [OF names_plain(1) f(1)] store_member_string [OF names_plain(2) f(2)]
    store_member_string [OF names_plain(3) f(3)] store_member_string [OF names_plain(4) f(4)]
    store_member_string [OF names_plain(5) f(5)] store_member_string [OF names_plain(6) f(6)]
  show ?thesis
    by (simp add: store_value_def EnvVar_members_def m store_field_def store_string_def
        store_bool_def unquote_string_body coerced_def del: store_member.simps)
qed

lemma Unmarshal_Marshal: "json_Unmarshal (EnvVar_json v) v0 = (coerced v, None)"
  by (simp add: json_Unmarshal_def parse_EnvVar_json store_EnvVar_members)

lemma coerced_valid:
  "ValidString (VariableType v) \<Longrightarrow> ValidString (Key v) \<Longrightarrow> ValidString (Value v) \<Longrightarrow>
   ValidString (EnvironmentScope v) \<Longrightarrow> coerced v = v"
  by (simp add: coerced_def coerce_valid)

lemma ValidString_ascii: "\<forall>c \<in> set s. byte c < 0x80 \<Longrightarrow> ValidString s"
proof (induction s)
  case Nil
  show ?case by simp
next
  case (Cons c s)
  then have "byte c < 0x80" by simp
  from decode_ascii [OF this, of s] Cons show ?case
    by (simp add: ValidString.simps(2) RuneError_def)
qed

lemma coerce_ascii_all: "\<forall>c \<in> set s. byte c < 0x80 \<Longrightarrow> coerce_utf8 s = s"
  by (simp add: coerce_valid ValidString_ascii)

lemma demo_var_valid:
  "ValidString (VariableType (demo_var ''A''))" "ValidString (Key (demo_var ''A''))"
  "ValidString (Value (demo_var ''A''))" "ValidString (EnvironmentScope (demo_var ''A''))"
  by (rule ValidString_ascii, simp add: demo_var_def byte_def)+

text \<open>
  C5, as the claim states it, fails: \<^verbatim>\<open>json.Marshal\<close> writes a byte that is not
  well-formed UTF-8 as \<^verbatim>\<open>\ufffd\<close>, so the record whose value is the byte
  \<^verbatim>\<open>0xFF\<close> comes back with the three bytes of \<^verbatim>\<open>U+FFFD\<close> as its value.
\<close>

theorem EnvVar_json_roundtrip_counterexample:
  "json_Marshal invalid_utf8_var = Inr (EnvVar_json invalid_utf8_var) \<and>
   json_Unmarshal (EnvVar_json invalid_utf8_var) zero_EnvVar =
     (invalid_utf8_var\<lparr>Value := [CHR 0xEF, CHR 0xBF, CHR 0xBD]\<rparr>, None) \<and>
   Value (fst (json_Unmarshal (EnvVar_json invalid_utf8_var) zero_EnvVar)) \<noteq> Value invalid_utf8_var"
proof -
  have a: "coerce_utf8 ''env_var'' = ''env_var''" "coerce_utf8 ''A'' = ''A''" "coerce_utf8 ''*'' = ''*''"
    by (rule coerce_ascii_all, simp add: byte_def)+
  have "DecodeRuneInString [CHR 0xFF] = (RuneError, 1)"
    by (simp add: DecodeRuneInString_def byte_def)
  then have b: "coerce_utf8 [CHR 0xFF] = [CHR 0xEF, CHR 0xBF, CHR 0xBD]"
    by (simp add: coerce_utf8.simps(2) EncodeRune_RuneError)
  have "coerced invalid_utf8_var = invalid_utf8_var\<lparr>Value := [CHR 0xEF, CHR 0xBF, CHR 0xBD]\<rparr>"
    by (simp add: coerced_def invalid_utf8_var_def demo_var_def a b)
  then show ?thesis
    by (simp add: Unmarshal_Marshal json_Marshal_def invalid_utf8_var_def demo_var_def)
qed

text \<open>
  C5, amended. For every record whose four string fields are valid UTF-8,
  \<^verbatim>\<open>json.Marshal\<close> succeeds and \<^verbatim>\<open>json.Unmarshal\<close> of its result, into any record,
  returns no error and leaves a record equal to the original in all six fields.
\<close>

theorem EnvVar_json_roundtrip:
  assumes "ValidString (VariableType v)" and "ValidString (Key v)" and "ValidString (Value v)"
    and "ValidString (EnvironmentScope v)"
  shows "\<exists>data. json_Marshal v = Inr data \<and> json_Unmarshal data v0 = (v, None)"
  using assms by (simp add: json_Marshal_def Unmarshal_Marshal coerced_valid)

theorem EnvVar_json_roundtrip_witness:
  "\<exists>data. json_Marshal (demo_var ''A'') = Inr data \<and>
      json_Unmarshal data zero_EnvVar = (demo_var ''A'', None)"
  using EnvVar_json_roundtrip [OF demo_var_valid] .

end
